theory Spec2Isabelle
  imports Main "HOL-Library.Word"
begin

unbundle bit_operations_syntax

text \<open>
  A shallow embedding of two compression profiles of the ROHC library, the UDP profile
  (c_udp.c) and the Uncompressed profile (c_uncompressed.c), and the properties of their
  state decisions, feedback handling and packet building. A C function that writes through
  a pointer returns the object it wrote; an access outside a buffer, which is undefined in
  C, makes the result \<open>None\<close>. Functions and constants that the two files use and do not
  define are parameters, or are modelled from the specification where a concrete value is
  needed; those definitions say so.
\<close>

section \<open>ROHC compressor, UDP profile (c_udp.c)\<close>

subsection \<open>Data\<close>

text \<open>
  \<^verbatim>\<open>struct udphdr\<close> (protocols/udp.h): four 16-bit fields. A field holds the 16 bits as
  the host loads them from the packet; the only operations of c_udp.c on them are the
  comparison with 0 and \<^verbatim>\<open>memcpy\<close>.
\<close>

record udphdr =
  source :: "16 word"
  dest :: "16 word"
  len :: "16 word"
  check :: "16 word"

text \<open>\<^verbatim>\<open>struct udp_tmp_vars\<close>: \<^verbatim>\<open>int send_udp_dynamic\<close>, which only ever holds -1, 0 or 1.\<close>

record udp_tmp_vars =
  send_udp_dynamic :: int

text \<open>\<^verbatim>\<open>struct sc_udp_context\<close>; \<^verbatim>\<open>size_t\<close> is taken as 64 bits wide.\<close>

record sc_udp_context =
  udp_checksum_change_count :: "64 word"
  old_udp :: udphdr
  tmp :: udp_tmp_vars

text \<open>
  \<^verbatim>\<open>struct rohc_comp_ctxt\<close> as far as c_udp.c reads it: \<open>oa_repetitions_nr\<close> is
  \<^verbatim>\<open>context->compressor->oa_repetitions_nr\<close> (\<^verbatim>\<open>uint8_t\<close>), \<open>udp_context\<close> is
  \<^verbatim>\<open>((struct rohc_comp_rfc3095_ctxt *) context->specific)->specific\<close>, and \<open>rfc3095_ctxt\<close>
  stands for every other field of the context and of its generic RFC 3095 part, whose
  declarations are not in c_udp.c.
\<close>

record 'g rohc_comp_ctxt =
  oa_repetitions_nr :: "8 word"
  rfc3095_ctxt :: 'g
  udp_context :: sc_udp_context

text \<open>\<^verbatim>\<open>struct rohc_pkt_hdrs\<close>: the UDP header of the packet, and the rest.\<close>

record 'h rohc_pkt_hdrs =
  udp :: udphdr
  ip_hdrs :: 'h

datatype rohc_comp_state_t =
  ROHC_COMP_STATE_IR | ROHC_COMP_STATE_FO | ROHC_COMP_STATE_SO

text \<open>
  \<^verbatim>\<open>rohc_packet_t\<close> (rohc_packets.h): c_udp.c only compares a packet type with
  \<^verbatim>\<open>ROHC_PACKET_IR\<close> and \<^verbatim>\<open>ROHC_PACKET_IR_DYN\<close>; the other constructors are the
  remaining packet formats of RFC 3095.
\<close>

datatype rohc_packet_t =
  ROHC_PACKET_IR | ROHC_PACKET_IR_DYN | ROHC_PACKET_UO_0 | ROHC_PACKET_UO_1
  | ROHC_PACKET_UOR_2 | ROHC_PACKET_NORMAL | ROHC_PACKET_UNKNOWN

subsection \<open>Change detection and state decision\<close>

text \<open>
  \<^verbatim>\<open>udp_changed_udp_dynamic\<close>: returns the \<^verbatim>\<open>int\<close> result and the context, whose
  \<open>udp_checksum_change_count\<close> the function resets through the non-const pointer
  \<^verbatim>\<open>udp_context\<close>. In the comparison with the \<^verbatim>\<open>size_t\<close> counter the \<^verbatim>\<open>uint8_t\<close>
  \<open>oa_repetitions_nr\<close> is converted to \<^verbatim>\<open>size_t\<close>.
\<close>

definition udp_changed_udp_dynamic ::
  "'g rohc_comp_ctxt \<Rightarrow> udphdr \<Rightarrow> int \<times> 'g rohc_comp_ctxt" where
  "udp_changed_udp_dynamic context udp_hdr =
     (let oa = oa_repetitions_nr context;
          uc = udp_context context
      in if (check udp_hdr \<noteq> 0 \<and> check (old_udp uc) = 0) \<or>
            (check udp_hdr = 0 \<and> check (old_udp uc) \<noteq> 0) \<or>
            udp_checksum_change_count uc < ucast oa
         then (1,
               if (check udp_hdr \<noteq> 0 \<and> check (old_udp uc) = 0) \<or>
                  (check udp_hdr = 0 \<and> check (old_udp uc) \<noteq> 0)
               then context\<lparr>udp_context := uc\<lparr>udp_checksum_change_count := 0\<rparr>\<rparr>
               else context)
         else (0, context))"

text \<open>
  The first statement of \<^verbatim>\<open>c_udp_encode\<close> (lines 213-215):
  \<^verbatim>\<open>udp_context->tmp.send_udp_dynamic = udp_changed_udp_dynamic(context, udp)\<close>.
\<close>

definition c_udp_encode_detect :: "'g rohc_comp_ctxt \<Rightarrow> udphdr \<Rightarrow> 'g rohc_comp_ctxt" where
  "c_udp_encode_detect context udp_hdr =
     (let (r, c1) = udp_changed_udp_dynamic context udp_hdr
      in c1\<lparr>udp_context := (udp_context c1)\<lparr>tmp := (tmp (udp_context c1))\<lparr>send_udp_dynamic := r\<rparr>\<rparr>\<rparr>)"

text \<open>
  \<^verbatim>\<open>udp_decide_state\<close>. The generic \<^verbatim>\<open>rohc_comp_rfc3095_decide_state\<close> is not part of
  c_udp.c: it is the parameter \<open>generic_decide_state\<close>.
\<close>

definition udp_decide_state ::
  "('g rohc_comp_ctxt \<Rightarrow> rohc_comp_state_t) \<Rightarrow> 'g rohc_comp_ctxt \<Rightarrow> rohc_comp_state_t" where
  "udp_decide_state generic_decide_state context =
     (if send_udp_dynamic (tmp (udp_context context)) \<noteq> 0
      then ROHC_COMP_STATE_IR
      else generic_decide_state context)"

subsection \<open>Encoding\<close>

text \<open>
  The two bytes that \<^verbatim>\<open>memcpy(&dest[counter], &udp->check, 2)\<close> copies: the object
  representation of the 16-bit field, low byte first as on a little-endian host.
\<close>

definition mem16 :: "16 word \<Rightarrow> 8 word list" where
  "mem16 w = [ucast w, ucast (drop_bit 8 w)]"

text \<open>
  \<^verbatim>\<open>udp_code_uo_remainder\<close>: \<open>next_header\<close> is the UDP header that the pointer is cast to,
  \<open>dst\<close> the whole packet buffer. The function checks no bound; a \<^verbatim>\<open>memcpy\<close> past the
  end of the buffer is undefined behaviour, modelled as \<open>None\<close>. Returns the buffer and
  the new position.
\<close>

definition udp_code_uo_remainder ::
  "'g rohc_comp_ctxt \<Rightarrow> udphdr \<Rightarrow> 8 word list \<Rightarrow> nat \<Rightarrow> (8 word list \<times> nat) option" where
  "udp_code_uo_remainder context next_header dst counter =
     (if check next_header \<noteq> 0
      then (if counter + 2 \<le> length dst
            then Some (dst[counter := mem16 (check next_header) ! 0,
                           counter + 1 := mem16 (check next_header) ! 1], counter + 2)
            else None)
      else Some (dst, counter + 0))"

text \<open>
  \<^verbatim>\<open>udp_code_dynamic_udp_part\<close>: writes the checksum and increments
  \<open>udp_checksum_change_count\<close> (a \<^verbatim>\<open>size_t\<close>: the increment wraps).
\<close>

definition udp_code_dynamic_udp_part ::
  "'g rohc_comp_ctxt \<Rightarrow> udphdr \<Rightarrow> 8 word list \<Rightarrow> nat
     \<Rightarrow> ('g rohc_comp_ctxt \<times> 8 word list \<times> nat) option" where
  "udp_code_dynamic_udp_part context next_header dst counter =
     (if counter + 2 \<le> length dst
      then Some (context\<lparr>udp_context := (udp_context context)
                   \<lparr>udp_checksum_change_count :=
                      udp_checksum_change_count (udp_context context) + 1\<rparr>\<rparr>,
                 dst[counter := mem16 (check next_header) ! 0,
                     counter + 1 := mem16 (check next_header) ! 1],
                 counter + 2)
      else None)"

text \<open>
  \<^verbatim>\<open>c_udp_encode\<close>. The generic encoder \<^verbatim>\<open>rohc_comp_rfc3095_encode\<close> is not part of
  c_udp.c: it is the parameter \<open>rfc3095_encode\<close>, which takes the context, the headers,
  the arrival time, the output buffer and its maximum length and returns the size, the
  packet type, the buffer and the context. The result is the size, the packet type, the
  buffer and the context.
\<close>

definition c_udp_encode ::
  "('g rohc_comp_ctxt \<Rightarrow> 'h rohc_pkt_hdrs \<Rightarrow> 't \<Rightarrow> 8 word list \<Rightarrow> nat
      \<Rightarrow> int \<times> rohc_packet_t \<times> 8 word list \<times> 'g rohc_comp_ctxt)
   \<Rightarrow> 'g rohc_comp_ctxt \<Rightarrow> 'h rohc_pkt_hdrs \<Rightarrow> 't \<Rightarrow> 8 word list \<Rightarrow> nat
   \<Rightarrow> int \<times> rohc_packet_t \<times> 8 word list \<times> 'g rohc_comp_ctxt" where
  "c_udp_encode rfc3095_encode context uncomp_pkt_hdrs uncomp_pkt_time rohc_pkt rohc_pkt_max_len =
     (let c1 = c_udp_encode_detect context (udp uncomp_pkt_hdrs);
          (size_r, packet_type, pkt, c2) =
             rfc3095_encode c1 uncomp_pkt_hdrs uncomp_pkt_time rohc_pkt rohc_pkt_max_len
      in if size_r < 0 then (size_r, packet_type, pkt, c2)
         else if packet_type = ROHC_PACKET_IR \<or> packet_type = ROHC_PACKET_IR_DYN
         then (size_r, packet_type, pkt,
               c2\<lparr>udp_context := (udp_context c2)\<lparr>old_udp := udp uncomp_pkt_hdrs\<rparr>\<rparr>)
         else (size_r, packet_type, pkt, c2))"

text \<open>
  The UDP part of a new context, as \<^verbatim>\<open>c_udp_create\<close> initialises it from the first
  packet of the flow.
\<close>

definition c_udp_create_udp_context :: "udphdr \<Rightarrow> sc_udp_context" where
  "c_udp_create_udp_context udp_hdr =
     \<lparr>udp_checksum_change_count = 0, old_udp = udp_hdr, tmp = \<lparr>send_udp_dynamic = - 1\<rparr>\<rparr>"


section \<open>ROHC compressor, Uncompressed profile (c_uncompressed.c)\<close>

subsection \<open>Data\<close>

text \<open>\<^verbatim>\<open>rohc_c_state\<close>, \<^verbatim>\<open>rohc_mode\<close> and the other types of rohc_comp_internals.h and rohc.h.\<close>

datatype rohc_c_state = IR | FO | SO

text \<open>
  \<^verbatim>\<open>rohc_mode\<close> is a C enumeration, an integer: \<^verbatim>\<open>c_uncompressed_feedback\<close> passes the
  2-bit mode field of the feedback as a \<^verbatim>\<open>rohc_mode\<close>.
\<close>

type_synonym rohc_mode = int

text \<open>
  Modelled from the spec: the enumerator \<^verbatim>\<open>U_MODE\<close> is declared in rohc.h, which is not
  among the sources. The modes are U, O and R; the feedback's mode field numbers them 1, 2
  and 3 (RFC 3095, 5.7.6.1), and the code stores that field unconverted.
\<close>

definition U_MODE :: rohc_mode where
  "U_MODE = 1"

datatype rohc_cid_type = SMALL_CID | LARGE_CID

datatype acktype_t = ACK | NACK | STATIC_NACK | RESERVED

text \<open>
  The packet types that c_uncompressed.c assigns to \<^verbatim>\<open>*packet_type\<close> (its
  \<^verbatim>\<open>rohc_packet_t\<close> has the older names, without the \<^verbatim>\<open>ROHC_\<close> prefix).
\<close>

datatype packet_t = PACKET_IR | PACKET_NORMAL | PACKET_UNKNOWN

text \<open>
  \<^verbatim>\<open>struct sc_uncompressed_context\<close>: three \<^verbatim>\<open>int\<close> counters. They are mathematical
  integers here: an increment that overflows a C \<^verbatim>\<open>int\<close> is undefined, and each
  counter is reset or stops growing long before.
\<close>

record sc_uncompressed_context =
  ir_count :: int
  normal_count :: int
  go_back_ir_count :: int

text \<open>
  The fields of \<^verbatim>\<open>struct rohc_comp\<close> that the profile reads through
  \<^verbatim>\<open>context->compressor\<close>. \<open>cid_type\<close> is \<^verbatim>\<open>medium.cid_type\<close>. \<open>crc_8\<close> is the function
  \<^verbatim>\<open>crc_calculate(CRC_TYPE_8, data, length, CRC_INIT_8, crc_table_8)\<close> of the bytes
  \<^verbatim>\<open>data[0..length-1]\<close>: \<^verbatim>\<open>crc_calculate\<close> (crc.c) is not among the sources, and the
  profile's code is embedded for any such function.
\<close>

record rohc_comp =
  periodic_refreshes_ir_timeout :: int
  cid_type :: rohc_cid_type
  crc_8 :: "8 word list \<Rightarrow> 8 word"

text \<open>\<^verbatim>\<open>struct c_context\<close>, with \<open>specific\<close> the Uncompressed context it points to.\<close>

record c_context =
  compressor :: rohc_comp
  cid :: int
  state :: rohc_c_state
  mode :: rohc_mode
  specific :: sc_uncompressed_context

text \<open>
  \<^verbatim>\<open>struct c_feedback\<close>: \<open>data\<close> is the feedback buffer (all of the allocated bytes),
  \<open>size_fb\<close> the field \<^verbatim>\<open>size\<close>.
\<close>

record c_feedback =
  type :: int
  data :: "8 word list"
  size_fb :: nat
  specific_offset :: nat
  specific_size :: int
  acktype :: acktype_t

subsection \<open>Mode and state transitions\<close>

definition uncompressed_change_state :: "c_context \<Rightarrow> rohc_c_state \<Rightarrow> c_context" where
  "uncompressed_change_state context new_state =
     (if state context \<noteq> new_state
      then context\<lparr>specific := (specific context)\<lparr>ir_count := 0, normal_count := 0\<rparr>,
                   state := new_state\<rparr>
      else context)"

definition uncompressed_change_mode :: "c_context \<Rightarrow> rohc_mode \<Rightarrow> c_context" where
  "uncompressed_change_mode context new_mode =
     (if mode context \<noteq> new_mode
      then uncompressed_change_state (context\<lparr>mode := new_mode\<rparr>) IR
      else context)"

definition uncompressed_periodic_down_transition :: "c_context \<Rightarrow> c_context" where
  "uncompressed_periodic_down_transition context =
     (let c1 = (if go_back_ir_count (specific context)
                     \<ge> periodic_refreshes_ir_timeout (compressor context)
                then uncompressed_change_state
                       (context\<lparr>specific := (specific context)\<lparr>go_back_ir_count := 0\<rparr>\<rparr>) IR
                else context)
      in if state c1 = FO
         then c1\<lparr>specific := (specific c1)
                   \<lparr>go_back_ir_count := go_back_ir_count (specific c1) + 1\<rparr>\<rparr>
         else c1)"

text \<open>
  \<^verbatim>\<open>uncompressed_decide_state\<close>. The macro \<^verbatim>\<open>MAX_IR_COUNT\<close> is defined in a header that is
  not among the sources: it is the parameter \<open>MAX_IR_COUNT\<close>.
\<close>

definition uncompressed_decide_state :: "int \<Rightarrow> c_context \<Rightarrow> c_context" where
  "uncompressed_decide_state MAX_IR_COUNT context =
     (let c1 = (if state context = IR \<and> ir_count (specific context) \<ge> MAX_IR_COUNT
                then uncompressed_change_state context FO
                else context)
      in if mode c1 = U_MODE then uncompressed_periodic_down_transition c1 else c1)"

subsection \<open>Feedback\<close>

text \<open>
  The option loop of \<^verbatim>\<open>c_uncompressed_feedback\<close> (lines 243-273). \<open>p\<close> is the index of
  the pointer \<^verbatim>\<open>p\<close> in the feedback buffer \<open>d\<close>. The loop writes \<^verbatim>\<open>p[1] = 0\<close> into the
  buffer. It checks no bound: reading \<^verbatim>\<open>p[0]\<close> or accessing \<^verbatim>\<open>p[1]\<close> past the end of
  the buffer is undefined behaviour, modelled as \<open>None\<close>. Returns the buffer,
  \<open>crc_in_packet\<close> and \<open>is_crc_used\<close>.
\<close>

function feedback_options ::
  "8 word list \<Rightarrow> nat \<Rightarrow> int \<Rightarrow> 8 word \<Rightarrow> bool \<Rightarrow> (8 word list \<times> 8 word \<times> bool) option" where
  "feedback_options d p remaining crc_in_packet is_crc_used =
     (if remaining > 0
      then (if p < length d
            then (let opt = drop_bit 4 (d ! p);
                      optlen = (d ! p) AND 0x0f
                  in if opt = 1
                     then (if p + 1 < length d
                           then feedback_options (d[p + 1 := 0]) (p + (1 + unat optlen))
                                  (remaining - (1 + uint optlen)) (d ! (p + 1)) True
                           else None)
                     else feedback_options d (p + (1 + unat optlen))
                            (remaining - (1 + uint optlen)) crc_in_packet is_crc_used)
            else None)
      else Some (d, crc_in_packet, is_crc_used))"
  by pat_completeness auto
termination
  by (relation "measure (\<lambda>(d, p, remaining, c, u). nat remaining)")
     (auto intro: less_le_trans [where y = 0])

declare feedback_options.simps [simp del]

text \<open>
  \<^verbatim>\<open>c_uncompressed_feedback\<close>: returns the context and the feedback buffer, which the
  function writes through \<^verbatim>\<open>p\<close>. Reading the first byte of the profile-specific part
  outside the buffer, or computing the CRC over more bytes than the buffer has, is
  undefined behaviour (\<open>None\<close>).
\<close>

definition c_uncompressed_feedback ::
  "c_context \<Rightarrow> c_feedback \<Rightarrow> (c_context \<times> 8 word list) option" where
  "c_uncompressed_feedback context feedback =
     (let p = specific_offset feedback
      in if type feedback = 1 then Some (context, data feedback)
         else if type feedback = 2
         then (if p < length (data feedback)
               then (let mode_fb = drop_bit 4 (data feedback ! p) AND 3;
                         remaining = specific_size feedback - 2
                     in case feedback_options (data feedback) (p + 2) remaining 0 False of
                          None \<Rightarrow> None
                        | Some (d, crc_in_packet, is_crc_used) \<Rightarrow>
                            if is_crc_used \<and> \<not> size_fb feedback \<le> length d then None
                            else if is_crc_used \<and>
                                    crc_in_packet
                                      \<noteq> crc_8 (compressor context) (take (size_fb feedback) d)
                            then Some (context, d)
                            else (let c1 = (if mode_fb \<noteq> 0
                                            then (if is_crc_used
                                                  then uncompressed_change_mode context
                                                         (uint mode_fb)
                                                  else context)
                                            else context)
                                  in case acktype feedback of
                                       ACK \<Rightarrow> Some (c1, d)
                                     | NACK \<Rightarrow> Some (c1, d)
                                     | STATIC_NACK \<Rightarrow> Some (uncompressed_change_state c1 IR, d)
                                     | RESERVED \<Rightarrow> Some (c1, d)))
               else None)
         else Some (context, data feedback))"

subsection \<open>Building packets\<close>

text \<open>
  Modelled from the spec: the constant \<^verbatim>\<open>ROHC_PROFILE_UNCOMPRESSED\<close> is declared in
  rohc.h, which is not among the sources; the profile byte of the Uncompressed profile is
  0x00.
\<close>

definition ROHC_PROFILE_UNCOMPRESSED :: "8 word" where
  "ROHC_PROFILE_UNCOMPRESSED = 0x00"

text \<open>
  \<^verbatim>\<open>uncompressed_code_IR_packet\<close>. \<^verbatim>\<open>code_cid_values\<close> (cid.c) is not among the sources:
  it is the parameter \<open>code_cid_values_fn\<close>, which takes the CID type, the CID, the
  buffer and its size and returns the position \<open>counter\<close>, the position
  \<open>first_position\<close> and the buffer. The function checks no bound: a write past the end
  of the buffer \<open>dst\<close> is undefined behaviour (\<open>None\<close>). Returns the new position, the
  buffer and \<^verbatim>\<open>*payload_offset\<close>.
\<close>

definition uncompressed_code_IR_packet ::
  "(rohc_cid_type \<Rightarrow> int \<Rightarrow> 8 word list \<Rightarrow> int \<Rightarrow> (nat \<times> nat \<times> 8 word list) option)
   \<Rightarrow> c_context \<Rightarrow> 8 word list \<Rightarrow> 8 word list \<Rightarrow> int \<Rightarrow> (int \<times> 8 word list \<times> int) option" where
  "uncompressed_code_IR_packet code_cid_values_fn context ip dst dest_size =
     (case code_cid_values_fn (cid_type (compressor context)) (cid context) dst dest_size of
        None \<Rightarrow> None
      | Some (counter, first_position, d1) \<Rightarrow>
          if first_position < length d1 \<and> counter + 1 < length d1
          then (let d2 = d1[first_position := 0xfc];
                    d3 = d2[counter := ROHC_PROFILE_UNCOMPRESSED];
                    counter1 = counter + 1;
                    d4 = d3[counter1 := 0];
                    d5 = d4[counter1 := crc_8 (compressor context) (take (counter1 + 1) d4)];
                    counter2 = counter1 + 1
                in Some (int counter2, d5, 0))
          else None)"

text \<open>
  \<^verbatim>\<open>uncompressed_code_normal_packet\<close>: \<open>ip\<close> is the raw data of the IP packet, whose
  first byte the function reads.
\<close>

definition uncompressed_code_normal_packet ::
  "(rohc_cid_type \<Rightarrow> int \<Rightarrow> 8 word list \<Rightarrow> int \<Rightarrow> (nat \<times> nat \<times> 8 word list) option)
   \<Rightarrow> c_context \<Rightarrow> 8 word list \<Rightarrow> 8 word list \<Rightarrow> int \<Rightarrow> (int \<times> 8 word list \<times> int) option" where
  "uncompressed_code_normal_packet code_cid_values_fn context ip dst dest_size =
     (case code_cid_values_fn (cid_type (compressor context)) (cid context) dst dest_size of
        None \<Rightarrow> None
      | Some (counter, first_position, d1) \<Rightarrow>
          if first_position < length d1 \<and> 0 < length ip
          then Some (int counter, d1[first_position := ip ! 0], 1)
          else None)"

text \<open>
  What an encoding call leaves: the context, the returned size, the buffer,
  \<^verbatim>\<open>*packet_type\<close> and \<^verbatim>\<open>*payload_offset\<close> (\<open>None\<close> when the call did not assign it).
\<close>

record encode_out =
  context_out :: c_context
  size_out :: int
  dest_out :: "8 word list"
  packet_type_out :: packet_t
  payload_offset_out :: "int option"

text \<open>
  \<^verbatim>\<open>uncompressed_code_packet\<close>: the counters are incremented through
  \<^verbatim>\<open>context->specific\<close> before the packet is built.
\<close>

definition uncompressed_code_packet ::
  "(rohc_cid_type \<Rightarrow> int \<Rightarrow> 8 word list \<Rightarrow> int \<Rightarrow> (nat \<times> nat \<times> 8 word list) option)
   \<Rightarrow> c_context \<Rightarrow> 8 word list \<Rightarrow> 8 word list \<Rightarrow> int \<Rightarrow> encode_out option" where
  "uncompressed_code_packet code_cid_values_fn context ip dst dest_size =
     (case state context of
        IR \<Rightarrow>
          (let c1 = context\<lparr>specific := (specific context)
                              \<lparr>ir_count := ir_count (specific context) + 1\<rparr>\<rparr>
           in case uncompressed_code_IR_packet code_cid_values_fn c1 ip dst dest_size of
                None \<Rightarrow> None
              | Some (sz, d, po) \<Rightarrow>
                  Some \<lparr>context_out = c1, size_out = sz, dest_out = d,
                        packet_type_out = PACKET_IR, payload_offset_out = Some po\<rparr>)
      | FO \<Rightarrow>
          (let c1 = context\<lparr>specific := (specific context)
                              \<lparr>normal_count := normal_count (specific context) + 1\<rparr>\<rparr>
           in case uncompressed_code_normal_packet code_cid_values_fn c1 ip dst dest_size of
                None \<Rightarrow> None
              | Some (sz, d, po) \<Rightarrow>
                  Some \<lparr>context_out = c1, size_out = sz, dest_out = d,
                        packet_type_out = PACKET_NORMAL, payload_offset_out = Some po\<rparr>)
      | SO \<Rightarrow>
          Some \<lparr>context_out = context, size_out = - 1, dest_out = dst,
                packet_type_out = PACKET_UNKNOWN, payload_offset_out = None\<rparr>)"

text \<open>\<^verbatim>\<open>c_uncompressed_encode\<close>: decide the state, then build the packet.\<close>

definition c_uncompressed_encode ::
  "int \<Rightarrow> (rohc_cid_type \<Rightarrow> int \<Rightarrow> 8 word list \<Rightarrow> int \<Rightarrow> (nat \<times> nat \<times> 8 word list) option)
   \<Rightarrow> c_context \<Rightarrow> 8 word list \<Rightarrow> int \<Rightarrow> 8 word list \<Rightarrow> int \<Rightarrow> encode_out option" where
  "c_uncompressed_encode MAX_IR_COUNT code_cid_values_fn context ip packet_size dst dest_size =
     uncompressed_code_packet code_cid_values_fn
       (uncompressed_decide_state MAX_IR_COUNT context) ip dst dest_size"

text \<open>\<^verbatim>\<open>c_uncompressed_create\<close>: the counters of a new context.\<close>

definition c_uncompressed_create :: sc_uncompressed_context where
  "c_uncompressed_create = \<lparr>ir_count = 0, normal_count = 0, go_back_ir_count = 0\<rparr>"

text \<open>
  The context that \<^verbatim>\<open>c_uncompressed_encode\<close> leaves: the state is decided, then
  \<^verbatim>\<open>uncompressed_code_packet\<close> increments the counter of the state. (That this is the
  context of every defined call is the lemma \<open>encode_context_eq\<close>.)
\<close>

definition uncompressed_encode_context :: "int \<Rightarrow> c_context \<Rightarrow> c_context" where
  "uncompressed_encode_context MAX_IR_COUNT context =
     (let c1 = uncompressed_decide_state MAX_IR_COUNT context
      in case state c1 of
           IR \<Rightarrow> c1\<lparr>specific := (specific c1)\<lparr>ir_count := ir_count (specific c1) + 1\<rparr>\<rparr>
         | FO \<Rightarrow> c1\<lparr>specific := (specific c1)\<lparr>normal_count := normal_count (specific c1) + 1\<rparr>\<rparr>
         | SO \<Rightarrow> c1)"

subsection \<open>The collaborators that are not among the sources\<close>

text \<open>
  Modelled from the spec: \<^verbatim>\<open>crc_calculate\<close> and the CRC tables (crc.c) are not among the
  sources. CRC-8 has polynomial 0xE0 and initial value 0xFF; the table-driven computation
  folds each byte into the register, eight shifts to the right per byte.
\<close>

definition crc8_shift :: "8 word \<Rightarrow> 8 word" where
  "crc8_shift c = (if c AND 1 \<noteq> 0 then drop_bit 1 c XOR 0xE0 else drop_bit 1 c)"

text \<open>
  Modelled from the spec: one byte of the CRC-8 computation of \<^verbatim>\<open>crc_calculate\<close> (crc.c, not
  among the sources), the entry of the precomputed table for the byte xored with the
  register.
\<close>

definition crc8_byte :: "8 word \<Rightarrow> 8 word \<Rightarrow> 8 word" where
  "crc8_byte c b =
     crc8_shift (crc8_shift (crc8_shift (crc8_shift
       (crc8_shift (crc8_shift (crc8_shift (crc8_shift (c XOR b))))))))"

text \<open>
  Modelled from the spec: \<^verbatim>\<open>crc_calculate\<close> (crc.c, not among the sources) for the type
  \<^verbatim>\<open>CRC_TYPE_8\<close> and the initial value \<^verbatim>\<open>CRC_INIT_8\<close> = 0xFF.
\<close>

definition crc_calculate_8 :: "8 word list \<Rightarrow> 8 word" where
  "crc_calculate_8 bytes = foldl crc8_byte 0xFF bytes"

text \<open>
  Modelled from the spec: the CID bytes that \<^verbatim>\<open>code_cid_values\<close> (cid.c, not among the
  sources) writes. With small CIDs, a CID other than 0 is sent as the Add-CID octet
  1110CCCC before the first byte of the packet; with large CIDs, the CID is sent as 1 or
  2 octets of CID info after the first byte of the packet (one octet 0xxxxxxx up to 127,
  two octets 10xxxxxx xxxxxxxx up to 16383). \<open>first_position\<close> is where the first byte
  of the packet goes and \<open>counter\<close> the position after the CID info, as the comments of
  \<^verbatim>\<open>uncompressed_code_IR_packet\<close> say.
\<close>

definition cid_info :: "int \<Rightarrow> 8 word list" where
  "cid_info cid_v =
     (if cid_v < 128 then [word_of_int cid_v]
      else [0x80 OR word_of_int (cid_v div 256), word_of_int (cid_v mod 256)])"

text \<open>
  Modelled from the spec: \<^verbatim>\<open>code_cid_values\<close> (cid.c, not among the sources), with the
  layout described above. It writes the CID bytes into the buffer, without a bound check
  (\<open>None\<close> when the buffer is too short).
\<close>

definition code_cid_values ::
  "rohc_cid_type \<Rightarrow> int \<Rightarrow> 8 word list \<Rightarrow> int \<Rightarrow> (nat \<times> nat \<times> 8 word list) option" where
  "code_cid_values ct cid_v dst dest_size =
     (case ct of
        SMALL_CID \<Rightarrow>
          if cid_v > 0
          then (if 0 < length dst then Some (2, 1, dst[0 := 0xE0 OR word_of_int cid_v])
                else None)
          else Some (1, 0, dst)
      | LARGE_CID \<Rightarrow>
          if 1 + length (cid_info cid_v) \<le> length dst
          then Some (1 + length (cid_info cid_v), 0,
                     take 1 dst @ cid_info cid_v @ drop (1 + length (cid_info cid_v)) dst)
          else None)"

subsection \<open>Sample calls of the UDP profile\<close>

text \<open>
  Stand-ins for the generic encoder at which the theorems are instantiated: one call that
  fails (the output buffer is too small) and leaves the buffer and the context as it got
  them, and one that succeeds with a given packet type and header length and leaves the
  context as it got it.
\<close>

definition rfc3095_encode_fails ::
  "unit rohc_comp_ctxt \<Rightarrow> unit rohc_pkt_hdrs \<Rightarrow> unit \<Rightarrow> 8 word list \<Rightarrow> nat
     \<Rightarrow> int \<times> rohc_packet_t \<times> 8 word list \<times> unit rohc_comp_ctxt" where
  "rfc3095_encode_fails c h t pkt n = (- 1, ROHC_PACKET_UNKNOWN, pkt, c)"

definition rfc3095_encode_emits ::
  "rohc_packet_t \<Rightarrow> int \<Rightarrow> unit rohc_comp_ctxt \<Rightarrow> unit rohc_pkt_hdrs \<Rightarrow> unit \<Rightarrow> 8 word list \<Rightarrow> nat
     \<Rightarrow> int \<times> rohc_packet_t \<times> 8 word list \<times> unit rohc_comp_ctxt" where
  "rfc3095_encode_emits pt sz c h t pkt n = (sz, pt, pkt, c)"

text \<open>
  A flow in the SO state whose packets had the checksum 0x1234: the counter stands at 5,
  above the 3 repetitions, and the last detection returned 0. \<open>udp_zero_hdrs\<close> is a
  packet of that flow with the checksum 0, \<open>udp_same_hdrs\<close> one with the checksum 0x5678.
\<close>

definition udp_flow_ctxt :: "unit rohc_comp_ctxt" where
  "udp_flow_ctxt =
     \<lparr>oa_repetitions_nr = 3, rfc3095_ctxt = (),
      udp_context = \<lparr>udp_checksum_change_count = 5,
                     old_udp = \<lparr>source = 1, dest = 2, len = 8, check = 0x1234\<rparr>,
                     tmp = \<lparr>send_udp_dynamic = 0\<rparr>\<rparr>\<rparr>"

definition udp_zero_hdrs :: "unit rohc_pkt_hdrs" where
  "udp_zero_hdrs = \<lparr>udp = \<lparr>source = 1, dest = 2, len = 8, check = 0\<rparr>, ip_hdrs = ()\<rparr>"

definition udp_same_hdrs :: "unit rohc_pkt_hdrs" where
  "udp_same_hdrs = \<lparr>udp = \<lparr>source = 1, dest = 2, len = 8, check = 0x5678\<rparr>, ip_hdrs = ()\<rparr>"

definition generic_decides_SO :: "unit rohc_comp_ctxt \<Rightarrow> rohc_comp_state_t" where
  "generic_decides_SO c = ROHC_COMP_STATE_SO"

subsection \<open>Sample calls of the Uncompressed profile\<close>

text \<open>
  A compressor with the default refresh period of 1700 packets and the CRC-8 of the spec,
  with small or large CIDs.
\<close>

definition sample_comp :: "rohc_cid_type \<Rightarrow> rohc_comp" where
  "sample_comp ct =
     \<lparr>periodic_refreshes_ir_timeout = 1700, cid_type = ct, crc_8 = crc_calculate_8\<rparr>"

text \<open>
  Contexts in U-mode: \<open>ir_ctxt\<close> is in the IR state and has sent \<open>n\<close> IR packets,
  \<open>fo_ctxt\<close> is in the FO state and has sent \<open>n\<close> Normal packets since the last IR
  state.
\<close>

definition ir_ctxt :: "rohc_cid_type \<Rightarrow> int \<Rightarrow> int \<Rightarrow> c_context" where
  "ir_ctxt ct cid_v n =
     \<lparr>compressor = sample_comp ct, cid = cid_v, state = IR, mode = U_MODE,
      specific = \<lparr>ir_count = n, normal_count = 0, go_back_ir_count = 0\<rparr>\<rparr>"

definition fo_ctxt :: "rohc_cid_type \<Rightarrow> int \<Rightarrow> int \<Rightarrow> c_context" where
  "fo_ctxt ct cid_v n =
     \<lparr>compressor = sample_comp ct, cid = cid_v, state = FO, mode = U_MODE,
      specific = \<lparr>ir_count = 0, normal_count = n, go_back_ir_count = n\<rparr>\<rparr>"

text \<open>
  FEEDBACK-2 packets whose profile-specific part is the whole buffer: two header bytes
  (ack-type, mode, SN), then the options. \<open>feedback2\<close> has no option; \<open>feedback2_crc\<close> has
  the header byte \<open>b\<close>, the SN byte 0x01 and one CRC option (0x11) with the value \<open>v\<close>.
\<close>

definition feedback2 :: "acktype_t \<Rightarrow> 8 word \<Rightarrow> c_feedback" where
  "feedback2 a b =
     \<lparr>type = 2, data = [b, 0x01], size_fb = 2, specific_offset = 0, specific_size = 2,
      acktype = a\<rparr>"

definition feedback2_crc :: "acktype_t \<Rightarrow> 8 word \<Rightarrow> 8 word \<Rightarrow> c_feedback" where
  "feedback2_crc a b v =
     \<lparr>type = 2, data = [b, 0x01, 0x11, v], size_fb = 4, specific_offset = 0,
      specific_size = 4, acktype = a\<rparr>"

section \<open>Properties of the UDP profile\<close>

text \<open>
  Claim C1. In \<^verbatim>\<open>c_udp_encode\<close>, the change detection \<^verbatim>\<open>udp_changed_udp_dynamic\<close> returns
  1 exactly when the packet's UDP checksum and the stored old checksum differ in zero-ness
  or \<open>udp_checksum_change_count\<close> is below \<open>oa_repetitions_nr\<close>, and 0 otherwise; the result
  is stored in \<open>send_udp_dynamic\<close>; the counter is reset to 0 when the zero-ness flipped
  and the context is left as it was when it did not; and whenever \<open>send_udp_dynamic\<close> is
  set, \<^verbatim>\<open>udp_decide_state\<close> selects the IR state, whatever the generic decision would be.
\<close>

theorem C1_udp_change_detection:
  fixes c :: "'g rohc_comp_ctxt"
  shows "(let uc = udp_context c;
              flip = ((check udp_hdr = 0) \<noteq> (check (old_udp uc) = 0));
              r = udp_changed_udp_dynamic c udp_hdr;
              c1 = c_udp_encode_detect c udp_hdr
          in (fst r = 1 \<longleftrightarrow> flip \<or> udp_checksum_change_count uc < ucast (oa_repetitions_nr c))
           \<and> (fst r \<noteq> 1 \<longrightarrow> fst r = 0)
           \<and> send_udp_dynamic (tmp (udp_context c1)) = fst r
           \<and> (flip \<longrightarrow> udp_checksum_change_count (udp_context c1) = 0)
           \<and> (\<not> flip \<longrightarrow> udp_checksum_change_count (udp_context c1) = udp_checksum_change_count uc
                     \<and> snd r = c)
           \<and> old_udp (udp_context c1) = old_udp uc
           \<and> (send_udp_dynamic (tmp (udp_context c1)) \<noteq> 0
                \<longrightarrow> udp_decide_state generic_decide_state c1 = ROHC_COMP_STATE_IR))"
proof -
  let ?uc = "udp_context c"
  let ?flip = "(check udp_hdr = 0) \<noteq> (check (old_udp ?uc) = 0)"
  let ?r = "udp_changed_udp_dynamic c udp_hdr"
  let ?c1 = "c_udp_encode_detect c udp_hdr"
  have ret: "fst ?r = (if ?flip \<or> udp_checksum_change_count ?uc < ucast (oa_repetitions_nr c)
                       then 1 else 0)"
    by (auto simp: udp_changed_udp_dynamic_def Let_def)
  have ctx: "snd ?r = (if ?flip then c\<lparr>udp_context := ?uc\<lparr>udp_checksum_change_count := 0\<rparr>\<rparr>
                       else c)"
    by (auto simp: udp_changed_udp_dynamic_def Let_def)
  have c1: "?c1 = (snd ?r)\<lparr>udp_context := (udp_context (snd ?r))
                     \<lparr>tmp := (tmp (udp_context (snd ?r)))\<lparr>send_udp_dynamic := fst ?r\<rparr>\<rparr>\<rparr>"
    by (simp add: c_udp_encode_detect_def split_beta)
  have flag: "send_udp_dynamic (tmp (udp_context ?c1)) = fst ?r"
    by (simp add: c1)
  have count: "udp_checksum_change_count (udp_context ?c1)
                 = (if ?flip then 0 else udp_checksum_change_count ?uc)"
    by (simp add: c1 ctx)
  have old: "old_udp (udp_context ?c1) = old_udp ?uc"
    by (simp add: c1 ctx)
  have ir: "udp_decide_state generic_decide_state ?c1 = ROHC_COMP_STATE_IR"
    if "send_udp_dynamic (tmp (udp_context ?c1)) \<noteq> 0"
    using that by (simp add: udp_decide_state_def)
  show ?thesis
    unfolding Let_def using ret ctx flag count old ir by auto
qed

text \<open>
  Three calls. The flow of \<open>udp_flow_ctxt\<close> receives a packet with checksum 0: the
  detection returns 1, resets the counter, and the state is IR although the generic
  decision is SO. It receives a packet with another non-zero checksum: the detection
  returns 0 and the generic decision stands. A new context (counter 0) receives its first
  packet: the detection returns 1 without a flip, and the counter stays.
\<close>

theorem C1_udp_change_detection_witness:
  "fst (udp_changed_udp_dynamic udp_flow_ctxt (udp udp_zero_hdrs)) = 1
   \<and> udp_checksum_change_count
         (udp_context (c_udp_encode_detect udp_flow_ctxt (udp udp_zero_hdrs))) = 0
   \<and> udp_decide_state generic_decides_SO (c_udp_encode_detect udp_flow_ctxt (udp udp_zero_hdrs))
       = ROHC_COMP_STATE_IR
   \<and> fst (udp_changed_udp_dynamic udp_flow_ctxt (udp udp_same_hdrs)) = 0
   \<and> udp_decide_state generic_decides_SO (c_udp_encode_detect udp_flow_ctxt (udp udp_same_hdrs))
       = ROHC_COMP_STATE_SO
   \<and> fst (udp_changed_udp_dynamic
              (udp_flow_ctxt\<lparr>udp_context := c_udp_create_udp_context (udp udp_same_hdrs)\<rparr>)
              (udp udp_same_hdrs)) = 1
   \<and> snd (udp_changed_udp_dynamic
              (udp_flow_ctxt\<lparr>udp_context := c_udp_create_udp_context (udp udp_same_hdrs)\<rparr>)
              (udp udp_same_hdrs))
       = udp_flow_ctxt\<lparr>udp_context := c_udp_create_udp_context (udp udp_same_hdrs)\<rparr>"
  using C1_udp_change_detection
          [where udp_hdr = "udp udp_zero_hdrs" and c = udp_flow_ctxt
             and generic_decide_state = generic_decides_SO]
        C1_udp_change_detection
          [where udp_hdr = "udp udp_same_hdrs" and c = udp_flow_ctxt
             and generic_decide_state = generic_decides_SO]
        C1_udp_change_detection
          [where udp_hdr = "udp udp_same_hdrs"
             and c = "udp_flow_ctxt\<lparr>udp_context := c_udp_create_udp_context (udp udp_same_hdrs)\<rparr>"
             and generic_decide_state = generic_decides_SO]
  by (simp add: Let_def udp_flow_ctxt_def udp_zero_hdrs_def udp_same_hdrs_def
        c_udp_create_udp_context_def udp_decide_state_def generic_decides_SO_def)

text \<open>
  Claim C2, as stated: if \<^verbatim>\<open>c_udp_encode\<close> fails, the whole context is as before the call.
  It is not: the change detection has already run. For the flow above and a packet with
  checksum 0, a generic encoder that fails without touching anything leaves
  \<open>udp_checksum_change_count\<close> at 0 instead of 5 and \<open>send_udp_dynamic\<close> at 1 instead of 0.
\<close>

theorem C2_failed_encode_counterexample:
  "c_udp_encode rfc3095_encode_fails udp_flow_ctxt udp_zero_hdrs () [] 0
     = (- 1, ROHC_PACKET_UNKNOWN, [],
        \<lparr>oa_repetitions_nr = 3, rfc3095_ctxt = (),
         udp_context = \<lparr>udp_checksum_change_count = 0,
                        old_udp = \<lparr>source = 1, dest = 2, len = 8, check = 0x1234\<rparr>,
                        tmp = \<lparr>send_udp_dynamic = 1\<rparr>\<rparr>\<rparr>)
   \<and> \<lparr>oa_repetitions_nr = 3, rfc3095_ctxt = (),
       udp_context = \<lparr>udp_checksum_change_count = 0,
                      old_udp = \<lparr>source = 1, dest = 2, len = 8, check = 0x1234\<rparr>,
                      tmp = \<lparr>send_udp_dynamic = 1\<rparr>\<rparr>\<rparr> \<noteq> udp_flow_ctxt"
  by (simp add: c_udp_encode_def c_udp_encode_detect_def udp_changed_udp_dynamic_def
        rfc3095_encode_fails_def udp_flow_ctxt_def udp_zero_hdrs_def)

text \<open>
  Claim C2, amended: if \<^verbatim>\<open>c_udp_encode\<close> fails, it writes nothing after the generic
  encoder returns: the context is the one the generic encoder left, and the generic
  encoder was given the context in which the change detection had already stored its
  result and reset the counter. So when the failing generic encoder leaves the UDP part
  alone, \<open>old_udp\<close> is as before the call, \<open>send_udp_dynamic\<close> is the result of the change
  detection for the failed packet, and \<open>udp_checksum_change_count\<close> is 0 if the zero-ness
  of the checksum flipped and as before the call otherwise.
\<close>

theorem C2_failed_encode_context:
  assumes "rfc3095_encode (c_udp_encode_detect c (udp h)) h t pkt n = (sz, pt, pkt', c2)"
    and "sz < 0"
  shows "c_udp_encode rfc3095_encode c h t pkt n = (sz, pt, pkt', c2)
       \<and> (udp_context c2 = udp_context (c_udp_encode_detect c (udp h)) \<longrightarrow>
            old_udp (udp_context c2) = old_udp (udp_context c)
          \<and> send_udp_dynamic (tmp (udp_context c2)) = fst (udp_changed_udp_dynamic c (udp h))
          \<and> udp_checksum_change_count (udp_context c2) =
              (if (check (udp h) = 0) \<noteq> (check (old_udp (udp_context c)) = 0) then 0
               else udp_checksum_change_count (udp_context c)))"
proof -
  have "c_udp_encode rfc3095_encode c h t pkt n = (sz, pt, pkt', c2)"
    using assms by (simp add: c_udp_encode_def Let_def)
  moreover have "old_udp (udp_context (c_udp_encode_detect c (udp h))) = old_udp (udp_context c)"
    by (simp add: c_udp_encode_detect_def udp_changed_udp_dynamic_def Let_def)
  moreover have "send_udp_dynamic (tmp (udp_context (c_udp_encode_detect c (udp h))))
                   = fst (udp_changed_udp_dynamic c (udp h))"
    by (simp add: c_udp_encode_detect_def split_beta)
  moreover have "udp_checksum_change_count (udp_context (c_udp_encode_detect c (udp h))) =
              (if (check (udp h) = 0) \<noteq> (check (old_udp (udp_context c)) = 0) then 0
               else udp_checksum_change_count (udp_context c))"
    by (auto simp: c_udp_encode_detect_def udp_changed_udp_dynamic_def Let_def)
  ultimately show ?thesis by simp
qed

theorem C2_failed_encode_context_witness:
  "c_udp_encode rfc3095_encode_fails udp_flow_ctxt udp_zero_hdrs () [] 0
     = (- 1, ROHC_PACKET_UNKNOWN, [], c_udp_encode_detect udp_flow_ctxt (udp udp_zero_hdrs))
   \<and> old_udp (udp_context (c_udp_encode_detect udp_flow_ctxt (udp udp_zero_hdrs)))
       = old_udp (udp_context udp_flow_ctxt)
   \<and> udp_checksum_change_count (udp_context (c_udp_encode_detect udp_flow_ctxt (udp udp_zero_hdrs)))
       = 0"
proof -
  have e: "rfc3095_encode_fails (c_udp_encode_detect udp_flow_ctxt (udp udp_zero_hdrs))
             udp_zero_hdrs () [] 0
           = (- 1, ROHC_PACKET_UNKNOWN, [], c_udp_encode_detect udp_flow_ctxt (udp udp_zero_hdrs))"
    by (simp add: rfc3095_encode_fails_def)
  have n: "(- 1 :: int) < 0" by simp
  have f: "(check (udp udp_zero_hdrs) = 0) \<noteq> (check (old_udp (udp_context udp_flow_ctxt)) = 0)"
    by (simp add: udp_zero_hdrs_def udp_flow_ctxt_def)
  show ?thesis
    using C2_failed_encode_context
            [where rfc3095_encode = rfc3095_encode_fails and c = udp_flow_ctxt
               and h = udp_zero_hdrs, OF e n] f
    by simp
qed

text \<open>
  When the change detection returns 0, the packet's checksum and the reference checksum
  of the context agree in zero-ness. (\<^verbatim>\<open>udp_code_uo_remainder\<close> itself reads the checksum of
  the header it is given, which is the packet's.)
\<close>

lemma no_change_same_zeroness:
  assumes "fst (udp_changed_udp_dynamic c udp_hdr) = 0"
  shows "(check udp_hdr = 0) = (check (old_udp (udp_context c)) = 0)"
  using assms by (auto simp: udp_changed_udp_dynamic_def Let_def split: if_splits)

lemma detect_keeps_old_udp:
  "old_udp (udp_context (c_udp_encode_detect c udp_hdr)) = old_udp (udp_context c)"
  by (simp add: c_udp_encode_detect_def udp_changed_udp_dynamic_def Let_def)

text \<open>
  Claim C3. A UO packet is built only when the state decided for the packet is not IR.
  Then \<^verbatim>\<open>udp_code_uo_remainder\<close>, which is given the packet's UDP header, appends the two
  bytes of the UDP checksum exactly when the reference checksum, the one of \<open>old_udp\<close> in
  the context, is not zero; otherwise it writes nothing and returns the position it got.
  (The write is undefined when fewer than two bytes are left in the buffer.)
\<close>

theorem C3_uo_remainder_checksum:
  assumes "udp_decide_state generic_decide_state (c_udp_encode_detect c udp_hdr)
             \<noteq> ROHC_COMP_STATE_IR"
  shows "udp_code_uo_remainder (c_udp_encode_detect c udp_hdr) udp_hdr dst counter =
           (if check (old_udp (udp_context c)) \<noteq> 0
            then (if counter + 2 \<le> length dst
                  then Some (dst[counter := mem16 (check udp_hdr) ! 0,
                                 counter + 1 := mem16 (check udp_hdr) ! 1], counter + 2)
                  else None)
            else Some (dst, counter))
       \<and> old_udp (udp_context (c_udp_encode_detect c udp_hdr)) = old_udp (udp_context c)"
proof -
  have z: "send_udp_dynamic (tmp (udp_context (c_udp_encode_detect c udp_hdr))) = 0"
    using assms by (auto simp: udp_decide_state_def split: if_splits)
  have "fst (udp_changed_udp_dynamic c udp_hdr) = 0"
    using z by (simp add: c_udp_encode_detect_def split_beta)
  then have same: "(check udp_hdr = 0) = (check (old_udp (udp_context c)) = 0)"
    by (rule no_change_same_zeroness)
  show ?thesis
    using same detect_keeps_old_udp [of c udp_hdr] by (simp add: udp_code_uo_remainder_def)
qed

theorem C3_uo_remainder_checksum_witness:
  "udp_decide_state generic_decides_SO (c_udp_encode_detect udp_flow_ctxt (udp udp_same_hdrs))
     \<noteq> ROHC_COMP_STATE_IR
   \<and> udp_code_uo_remainder (c_udp_encode_detect udp_flow_ctxt (udp udp_same_hdrs))
         (udp udp_same_hdrs) [0xF1, 0, 0, 0] 1 = Some ([0xF1, 0x78, 0x56, 0], 3)"
proof -
  have h: "udp_decide_state generic_decides_SO
             (c_udp_encode_detect udp_flow_ctxt (udp udp_same_hdrs)) \<noteq> ROHC_COMP_STATE_IR"
    by (simp add: udp_decide_state_def generic_decides_SO_def c_udp_encode_detect_def
          udp_changed_udp_dynamic_def udp_flow_ctxt_def udp_same_hdrs_def)
  show ?thesis
    using h C3_uo_remainder_checksum [OF h, of "[0xF1, 0, 0, 0]" 1]
    by (simp add: udp_flow_ctxt_def udp_same_hdrs_def mem16_def)
qed

text \<open>
  Claim C10. After a successful \<^verbatim>\<open>c_udp_encode\<close>, \<open>old_udp\<close> is the UDP header of the
  packet when the emitted packet type is IR or IR-DYN, and for every other packet type it
  is the \<open>old_udp\<close> from before the call; nothing else of the context that the generic
  encoder left is written. (The generic encoder cannot name the fields of the UDP part,
  which is declared in c_udp.c: that it leaves \<open>old_udp\<close> alone is a hypothesis.)
\<close>

theorem C10_old_udp_update:
  assumes "rfc3095_encode (c_udp_encode_detect c (udp h)) h t pkt n = (sz, pt, pkt', c2)"
    and "0 \<le> sz"
    and "old_udp (udp_context c2) = old_udp (udp_context c)"
  shows "\<exists>c3. c_udp_encode rfc3095_encode c h t pkt n = (sz, pt, pkt', c3)
            \<and> old_udp (udp_context c3) =
                 (if pt = ROHC_PACKET_IR \<or> pt = ROHC_PACKET_IR_DYN then udp h
                  else old_udp (udp_context c))
            \<and> c3\<lparr>udp_context := (udp_context c3)\<lparr>old_udp := old_udp (udp_context c)\<rparr>\<rparr> = c2"
proof (cases "pt = ROHC_PACKET_IR \<or> pt = ROHC_PACKET_IR_DYN")
  case True
  let ?c3 = "c2\<lparr>udp_context := (udp_context c2)\<lparr>old_udp := udp h\<rparr>\<rparr>"
  have "c_udp_encode rfc3095_encode c h t pkt n = (sz, pt, pkt', ?c3)"
    using assms(1,2) True by (simp add: c_udp_encode_def Let_def)
  moreover have "?c3\<lparr>udp_context := (udp_context ?c3)\<lparr>old_udp := old_udp (udp_context c)\<rparr>\<rparr> = c2"
    using assms(3) by simp
  ultimately show ?thesis using True by auto
next
  case False
  have "c_udp_encode rfc3095_encode c h t pkt n = (sz, pt, pkt', c2)"
    using assms(1,2) False by (simp add: c_udp_encode_def Let_def)
  moreover have "c2\<lparr>udp_context := (udp_context c2)\<lparr>old_udp := old_udp (udp_context c)\<rparr>\<rparr> = c2"
    using assms(3) by simp
  ultimately show ?thesis using False assms(3) by auto
qed

theorem C10_old_udp_update_witness:
  "old_udp (udp_context (snd (snd (snd
      (c_udp_encode (rfc3095_encode_emits ROHC_PACKET_UO_0 1) udp_flow_ctxt udp_same_hdrs () [0] 1)))))
     = \<lparr>source = 1, dest = 2, len = 8, check = 0x1234\<rparr>
   \<and> old_udp (udp_context (snd (snd (snd
      (c_udp_encode (rfc3095_encode_emits ROHC_PACKET_IR_DYN 1) udp_flow_ctxt udp_same_hdrs () [0] 1)))))
     = \<lparr>source = 1, dest = 2, len = 8, check = 0x5678\<rparr>"
proof -
  have e: "rfc3095_encode_emits pt 1 (c_udp_encode_detect udp_flow_ctxt (udp udp_same_hdrs))
             udp_same_hdrs () [0] 1
           = (1, pt, [0], c_udp_encode_detect udp_flow_ctxt (udp udp_same_hdrs))" for pt
    by (simp add: rfc3095_encode_emits_def)
  have p: "(0::int) \<le> 1" by simp
  have f: "old_udp (udp_context (c_udp_encode_detect udp_flow_ctxt (udp udp_same_hdrs)))
             = old_udp (udp_context udp_flow_ctxt)"
    by (simp add: c_udp_encode_detect_def udp_changed_udp_dynamic_def Let_def)
  show ?thesis
    using C10_old_udp_update
            [where rfc3095_encode = "rfc3095_encode_emits ROHC_PACKET_UO_0 1"
               and c = udp_flow_ctxt and h = udp_same_hdrs, OF e p f]
          C10_old_udp_update
            [where rfc3095_encode = "rfc3095_encode_emits ROHC_PACKET_IR_DYN 1"
               and c = udp_flow_ctxt and h = udp_same_hdrs, OF e p f]
    by (auto simp: udp_flow_ctxt_def udp_same_hdrs_def)
qed

section \<open>Properties of the Uncompressed profile\<close>

subsection \<open>Auxiliary facts\<close>

text \<open>
  What the option loop leaves: the buffer keeps its length, every byte is as before or
  zero, and when \<open>is_crc_used\<close> is set by the loop, some byte after the option's position
  held the value now in \<open>crc_in_packet\<close> and is zero in the buffer.
\<close>

lemma feedback_options_inv:
  "feedback_options d p r ci u = Some (d', ci', u') \<Longrightarrow>
     length d' = length d
   \<and> (\<forall>j < length d. d' ! j = d ! j \<or> d' ! j = 0)
   \<and> (u' \<longrightarrow> (u \<and> ci' = ci \<and> d' = d) \<or> (\<exists>i. p < i \<and> i < length d \<and> d ! i = ci' \<and> d' ! i = 0))"
proof (induction d p r ci u rule: feedback_options.induct)
  case (1 d p remaining ci u)
  show ?case
  proof (cases "remaining > 0")
    case False
    with "1.prems" show ?thesis by (simp add: feedback_options.simps [of d p])
  next
    case pos: True
    show ?thesis
    proof (cases "p < length d")
      case False
      with pos "1.prems" show ?thesis by (simp add: feedback_options.simps [of d p])
    next
      case inb: True
      show ?thesis
      proof (cases "drop_bit 4 (d ! p) = 1")
        case crc: True
        show ?thesis
        proof (cases "p + 1 < length d")
          case False
          with pos inb crc "1.prems" show ?thesis
            by (simp add: feedback_options.simps [of d p] Let_def)
        next
          case inb1: True
          let ?d1 = "d[p + 1 := 0]"
          let ?p1 = "p + (1 + unat (d ! p AND 0x0f))"
          have call: "feedback_options ?d1 ?p1 (remaining - (1 + uint (d ! p AND 0x0f)))
                        (d ! (p + 1)) True = Some (d', ci', u')"
            using pos inb crc inb1 "1.prems"
            by (simp add: feedback_options.simps [of d p] Let_def)
          have ih: "length d' = length ?d1
                  \<and> (\<forall>j < length ?d1. d' ! j = ?d1 ! j \<or> d' ! j = 0)
                  \<and> (u' \<longrightarrow> (True \<and> ci' = d ! (p + 1) \<and> d' = ?d1) \<or>
                        (\<exists>i. ?p1 < i \<and> i < length ?d1 \<and> ?d1 ! i = ci' \<and> d' ! i = 0))"
            using "1.IH"(1) [OF pos inb refl refl crc inb1 call] .
          have len: "length d' = length d" using ih by simp
          have frame: "\<forall>j < length d. d' ! j = d ! j \<or> d' ! j = 0"
          proof (intro allI impI)
            fix j assume "j < length d"
            then have "d' ! j = ?d1 ! j \<or> d' ! j = 0" using ih by simp
            then show "d' ! j = d ! j \<or> d' ! j = 0"
              by (cases "j = p + 1") (use \<open>j < length d\<close> in auto)
          qed
          have found: "u' \<longrightarrow> (\<exists>i. p < i \<and> i < length d \<and> d ! i = ci' \<and> d' ! i = 0)"
          proof
            assume u'
            then consider "ci' = d ! (p + 1)" "d' = ?d1"
              | i where "?p1 < i" "i < length ?d1" "?d1 ! i = ci'" "d' ! i = 0"
              using ih by blast
            then show "\<exists>i. p < i \<and> i < length d \<and> d ! i = ci' \<and> d' ! i = 0"
            proof cases
              case 1
              then show ?thesis using inb1 by (intro exI [of _ "p + 1"]) simp
            next
              case 2
              then show ?thesis by (intro exI [of _ i]) auto
            qed
          qed
          show ?thesis using len frame found by blast
        qed
      next
        case other: False
        let ?p1 = "p + (1 + unat (d ! p AND 0x0f))"
        have call: "feedback_options d ?p1 (remaining - (1 + uint (d ! p AND 0x0f))) ci u
                      = Some (d', ci', u')"
          using pos inb other "1.prems"
          by (simp add: feedback_options.simps [of d p] Let_def)
        have ih: "length d' = length d
                \<and> (\<forall>j < length d. d' ! j = d ! j \<or> d' ! j = 0)
                \<and> (u' \<longrightarrow> (u \<and> ci' = ci \<and> d' = d) \<or>
                      (\<exists>i. ?p1 < i \<and> i < length d \<and> d ! i = ci' \<and> d' ! i = 0))"
          using "1.IH"(2) [OF pos inb refl refl other call] .
        then show ?thesis by fastforce
      qed
    qed
  qed
qed

text \<open>The two transitions, step by step.\<close>

lemma change_state_simps:
  "state (uncompressed_change_state c s) = s"
  "mode (uncompressed_change_state c s) = mode c"
  "compressor (uncompressed_change_state c s) = compressor c"
  "cid (uncompressed_change_state c s) = cid c"
  "go_back_ir_count (specific (uncompressed_change_state c s)) = go_back_ir_count (specific c)"
  "ir_count (specific (uncompressed_change_state c s))
     = (if state c \<noteq> s then 0 else ir_count (specific c))"
  by (simp_all add: uncompressed_change_state_def)

lemma change_mode_simps:
  "mode (uncompressed_change_mode c m) = m"
  "state (uncompressed_change_mode c m) = (if mode c \<noteq> m then IR else state c)"
  "compressor (uncompressed_change_mode c m) = compressor c"
  "ir_count (specific (uncompressed_change_mode c m))
     = (if mode c \<noteq> m \<and> state c \<noteq> IR then 0 else ir_count (specific c))"
  by (simp_all add: uncompressed_change_mode_def uncompressed_change_state_def)

text \<open>
  The type-2 branch of \<^verbatim>\<open>c_uncompressed_feedback\<close>, once the option loop has returned.
\<close>

lemma feedback2_unfold:
  assumes "type fb = 2"
    and "c_uncompressed_feedback c fb = Some (c', d')"
    and "feedback_options (data fb) (specific_offset fb + 2) (specific_size fb - 2) 0 False
           = Some (d, crc_in_packet, is_crc_used)"
  shows "d' = d"
    and "is_crc_used \<and> crc_in_packet \<noteq> crc_8 (compressor c) (take (size_fb fb) d) \<Longrightarrow> c' = c"
    and "\<not> (is_crc_used \<and> crc_in_packet \<noteq> crc_8 (compressor c) (take (size_fb fb) d)) \<Longrightarrow>
           c' = (let m = drop_bit 4 (data fb ! specific_offset fb) AND 3;
                     c1 = (if m \<noteq> 0 \<and> is_crc_used then uncompressed_change_mode c (uint m)
                           else c)
                 in if acktype fb = STATIC_NACK then uncompressed_change_state c1 IR else c1)"
proof -
  have inb: "specific_offset fb < length (data fb)"
    using assms(1,2) by (simp add: c_uncompressed_feedback_def Let_def split: if_splits)
  have sz: "\<not> (is_crc_used \<and> \<not> size_fb fb \<le> length d)"
    using assms inb by (simp add: c_uncompressed_feedback_def Let_def split: if_splits)
  show "d' = d"
    using assms inb sz
    by (cases "acktype fb")
       (simp_all add: c_uncompressed_feedback_def Let_def split: if_splits)
  show "c' = c" if "is_crc_used \<and> crc_in_packet \<noteq> crc_8 (compressor c) (take (size_fb fb) d)"
    using that assms inb sz by (simp add: c_uncompressed_feedback_def Let_def)
  show "c' = (let m = drop_bit 4 (data fb ! specific_offset fb) AND 3;
                     c1 = (if m \<noteq> 0 \<and> is_crc_used then uncompressed_change_mode c (uint m)
                           else c)
                 in if acktype fb = STATIC_NACK then uncompressed_change_state c1 IR else c1)"
    if "\<not> (is_crc_used \<and> crc_in_packet \<noteq> crc_8 (compressor c) (take (size_fb fb) d))"
    using that assms inb sz
    by (cases "acktype fb")
       (simp_all add: c_uncompressed_feedback_def Let_def split: if_splits)
qed

lemma feedback2_options_defined:
  assumes "type fb = 2"
    and "c_uncompressed_feedback c fb = Some (c', d')"
  shows "\<exists>d crc_in_packet is_crc_used.
           feedback_options (data fb) (specific_offset fb + 2) (specific_size fb - 2) 0 False
             = Some (d, crc_in_packet, is_crc_used)"
proof (cases "feedback_options (data fb) (specific_offset fb + 2) (specific_size fb - 2) 0 False")
  case None
  with assms show ?thesis
    by (simp add: c_uncompressed_feedback_def Let_def split: if_splits)
next
  case (Some x)
  then show ?thesis by (cases x) simp
qed

subsection \<open>The state machine\<close>

text \<open>
  Claim C4. \<^verbatim>\<open>uncompressed_decide_state\<close>, which every encode call runs first, only ever
  enters the states IR and FO. It moves the state from IR to FO once \<open>MAX_IR_COUNT\<close> IR
  packets have been sent. In U-mode, \<open>go_back_ir_count\<close> counts the packets of the FO
  state, one per call, and once it has reached \<open>periodic_refreshes_ir_timeout\<close> the
  counter is reset to 0 and the state is IR (this check comes last in the call, so it
  wins over the move to FO). Otherwise the state stays as it is. The feedback handler and
  the packet builder enter no other state either: the handler leaves the state or sets
  IR, the builder leaves it. (The lemmas on sequences of packets below count the calls:
  \<open>MAX_IR_COUNT\<close> packets in the IR state, then the timeout's number of packets in the FO
  state.)
\<close>

theorem C4_uncompressed_state_machine:
  "(let c' = uncompressed_decide_state MAX_IR_COUNT c;
        refresh = (mode c = U_MODE \<and>
                   go_back_ir_count (specific c) \<ge> periodic_refreshes_ir_timeout (compressor c));
        enough_ir = (state c = IR \<and> ir_count (specific c) \<ge> MAX_IR_COUNT)
    in state c' = (if refresh then IR else if enough_ir then FO else state c)
     \<and> go_back_ir_count (specific c') =
         (if refresh then 0
          else if mode c = U_MODE \<and> state c' = FO then go_back_ir_count (specific c) + 1
          else go_back_ir_count (specific c))
     \<and> mode c' = mode c
     \<and> (\<forall>fb c2 d2. c_uncompressed_feedback c fb = Some (c2, d2) \<longrightarrow>
            state c2 = state c \<or> state c2 = IR)
     \<and> (\<forall>r. c_uncompressed_encode MAX_IR_COUNT code_cid_values_fn c ip packet_size dst dest_size
                 = Some r \<longrightarrow>
            state (context_out r) = state c'))"
proof -
  let ?c' = "uncompressed_decide_state MAX_IR_COUNT c"
  let ?refresh = "mode c = U_MODE \<and>
                   go_back_ir_count (specific c) \<ge> periodic_refreshes_ir_timeout (compressor c)"
  let ?enough = "state c = IR \<and> ir_count (specific c) \<ge> MAX_IR_COUNT"
  have st: "state ?c' = (if ?refresh then IR else if ?enough then FO else state c)"
    by (simp add: uncompressed_decide_state_def uncompressed_periodic_down_transition_def
          uncompressed_change_state_def Let_def)
  have gb: "go_back_ir_count (specific ?c') =
         (if ?refresh then 0
          else if mode c = U_MODE \<and> state ?c' = FO then go_back_ir_count (specific c) + 1
          else go_back_ir_count (specific c))"
    by (simp add: uncompressed_decide_state_def uncompressed_periodic_down_transition_def
          uncompressed_change_state_def Let_def)
  have md: "mode ?c' = mode c"
    by (simp add: uncompressed_decide_state_def uncompressed_periodic_down_transition_def
          uncompressed_change_state_def Let_def)
  have fb: "state c2 = state c \<or> state c2 = IR"
    if h: "c_uncompressed_feedback c fb = Some (c2, d2)" for fb c2 d2
  proof (cases "type fb = 2")
    case False
    with h show ?thesis by (auto simp: c_uncompressed_feedback_def Let_def split: if_splits)
  next
    case True
    obtain d ci u where opts:
      "feedback_options (data fb) (specific_offset fb + 2) (specific_size fb - 2) 0 False
         = Some (d, ci, u)"
      using feedback2_options_defined [OF True h] by blast
    show ?thesis
    proof (cases "u \<and> ci \<noteq> crc_8 (compressor c) (take (size_fb fb) d)")
      case True
      then show ?thesis using feedback2_unfold(2) [OF \<open>type fb = 2\<close> h opts] by simp
    next
      case False
      then show ?thesis
        using feedback2_unfold(3) [OF \<open>type fb = 2\<close> h opts]
        by (simp add: Let_def change_state_simps change_mode_simps)
    qed
  qed
  have enc: "state (context_out r) = state ?c'"
    if "c_uncompressed_encode MAX_IR_COUNT code_cid_values_fn c ip packet_size dst dest_size
          = Some r" for r
    using that
    by (cases "state ?c'")
       (auto simp: c_uncompressed_encode_def uncompressed_code_packet_def Let_def
             split: option.splits)
  show ?thesis
    unfolding Let_def using st gb md fb enc by blast
qed

theorem C4_uncompressed_state_machine_witness:
  "state (uncompressed_decide_state 3 (ir_ctxt SMALL_CID 0 3)) = FO
   \<and> state (uncompressed_decide_state 3 (ir_ctxt SMALL_CID 0 2)) = IR
   \<and> state (uncompressed_decide_state 3 (fo_ctxt SMALL_CID 0 1699)) = FO
   \<and> go_back_ir_count (specific (uncompressed_decide_state 3 (fo_ctxt SMALL_CID 0 1699))) = 1700
   \<and> state (uncompressed_decide_state 3 (fo_ctxt SMALL_CID 0 1700)) = IR
   \<and> go_back_ir_count (specific (uncompressed_decide_state 3 (fo_ctxt SMALL_CID 0 1700))) = 0"
  using C4_uncompressed_state_machine [of 3 "ir_ctxt SMALL_CID 0 3"]
        C4_uncompressed_state_machine [of 3 "ir_ctxt SMALL_CID 0 2"]
        C4_uncompressed_state_machine [of 3 "fo_ctxt SMALL_CID 0 1699"]
        C4_uncompressed_state_machine [of 3 "fo_ctxt SMALL_CID 0 1700"]
  by (simp add: Let_def ir_ctxt_def fo_ctxt_def sample_comp_def)

subsection \<open>Sequences of packets\<close>

lemma encode_context_eq:
  assumes "c_uncompressed_encode MAX_IR_COUNT code_cid_values_fn c ip packet_size dst dest_size
             = Some r"
  shows "context_out r = uncompressed_encode_context MAX_IR_COUNT c"
  using assms
  by (cases "state (uncompressed_decide_state MAX_IR_COUNT c)")
     (auto simp: c_uncompressed_encode_def uncompressed_code_packet_def
           uncompressed_encode_context_def Let_def split: option.splits)

lemma decide_state_simps:
  "state (uncompressed_decide_state M c) =
     (if mode c = U_MODE \<and>
         go_back_ir_count (specific c) \<ge> periodic_refreshes_ir_timeout (compressor c) then IR
      else if state c = IR \<and> ir_count (specific c) \<ge> M then FO else state c)"
  "mode (uncompressed_decide_state M c) = mode c"
  "compressor (uncompressed_decide_state M c) = compressor c"
  "go_back_ir_count (specific (uncompressed_decide_state M c)) =
     (if mode c \<noteq> U_MODE then go_back_ir_count (specific c)
      else if go_back_ir_count (specific c) \<ge> periodic_refreshes_ir_timeout (compressor c) then 0
      else if state (uncompressed_decide_state M c) = FO then go_back_ir_count (specific c) + 1
      else go_back_ir_count (specific c))"
  "ir_count (specific (uncompressed_decide_state M c)) =
     (if (state c = IR \<and> ir_count (specific c) \<ge> M) \<or>
         (state c \<noteq> IR \<and> mode c = U_MODE \<and>
          go_back_ir_count (specific c) \<ge> periodic_refreshes_ir_timeout (compressor c))
      then 0 else ir_count (specific c))"
  "normal_count (specific (uncompressed_decide_state M c)) =
     (if (state c = IR \<and> ir_count (specific c) \<ge> M) \<or>
         (state c \<noteq> IR \<and> mode c = U_MODE \<and>
          go_back_ir_count (specific c) \<ge> periodic_refreshes_ir_timeout (compressor c))
      then 0 else normal_count (specific c))"
  by (auto simp: uncompressed_decide_state_def uncompressed_periodic_down_transition_def
        uncompressed_change_state_def Let_def)

lemma encode_context_simps:
  "state (uncompressed_encode_context M c) = state (uncompressed_decide_state M c)"
  "mode (uncompressed_encode_context M c) = mode c"
  "compressor (uncompressed_encode_context M c) = compressor c"
  "go_back_ir_count (specific (uncompressed_encode_context M c))
     = go_back_ir_count (specific (uncompressed_decide_state M c))"
  "ir_count (specific (uncompressed_encode_context M c))
     = (if state (uncompressed_decide_state M c) = IR
        then ir_count (specific (uncompressed_decide_state M c)) + 1
        else ir_count (specific (uncompressed_decide_state M c)))"
  "normal_count (specific (uncompressed_encode_context M c))
     = (if state (uncompressed_decide_state M c) = FO
        then normal_count (specific (uncompressed_decide_state M c)) + 1
        else normal_count (specific (uncompressed_decide_state M c)))"
  by (cases "state (uncompressed_decide_state M c)";
      simp add: uncompressed_encode_context_def Let_def decide_state_simps(2,3))+

text \<open>
  The refresh period. In U-mode and in the FO state, with \<open>go_back_ir_count\<close> at \<open>g\<close>, the
  next \<open>n\<close> packets leave the state FO and the counter at \<open>g + n\<close>, as long as that is at
  most the timeout; the packet after the counter has reached the timeout is built in the
  IR state, with the counter back at 0.
\<close>

lemma refresh_period_FO:
  assumes "mode c = U_MODE"
    and "state c = FO"
    and "go_back_ir_count (specific c) + int n \<le> periodic_refreshes_ir_timeout (compressor c)"
  shows "state ((uncompressed_encode_context M ^^ n) c) = FO
       \<and> mode ((uncompressed_encode_context M ^^ n) c) = U_MODE
       \<and> compressor ((uncompressed_encode_context M ^^ n) c) = compressor c
       \<and> go_back_ir_count (specific ((uncompressed_encode_context M ^^ n) c))
           = go_back_ir_count (specific c) + int n"
  using assms
proof (induction n)
  case 0
  then show ?case by simp
next
  case (Suc n)
  let ?c = "(uncompressed_encode_context M ^^ n) c"
  have ih: "state ?c = FO" "mode ?c = U_MODE" "compressor ?c = compressor c"
    "go_back_ir_count (specific ?c) = go_back_ir_count (specific c) + int n"
    using Suc by simp_all
  have lt: "go_back_ir_count (specific ?c) < periodic_refreshes_ir_timeout (compressor ?c)"
    using ih Suc.prems(3) by simp
  have step: "state (uncompressed_encode_context M ?c) = FO
            \<and> mode (uncompressed_encode_context M ?c) = U_MODE
            \<and> compressor (uncompressed_encode_context M ?c) = compressor ?c
            \<and> go_back_ir_count (specific (uncompressed_encode_context M ?c))
                = go_back_ir_count (specific ?c) + 1"
    using ih(1,2) lt
    by (auto simp: encode_context_simps decide_state_simps)
  then show ?case using ih by simp
qed

lemma refresh_period_IR:
  assumes "mode c = U_MODE"
    and "state c = FO"
    and "go_back_ir_count (specific c) + int n = periodic_refreshes_ir_timeout (compressor c)"
  shows "state ((uncompressed_encode_context M ^^ Suc n) c) = IR
       \<and> go_back_ir_count (specific ((uncompressed_encode_context M ^^ Suc n) c)) = 0
       \<and> ir_count (specific ((uncompressed_encode_context M ^^ Suc n) c)) = 1"
proof -
  let ?c = "(uncompressed_encode_context M ^^ n) c"
  have fo: "state ?c = FO" "mode ?c = U_MODE" "compressor ?c = compressor c"
    "go_back_ir_count (specific ?c) = go_back_ir_count (specific c) + int n"
    using refresh_period_FO [where c = c and n = n and M = M] assms by simp_all
  then have due: "go_back_ir_count (specific ?c) \<ge> periodic_refreshes_ir_timeout (compressor ?c)"
    using assms(3) by simp
  have "state (uncompressed_encode_context M ?c) = IR
      \<and> go_back_ir_count (specific (uncompressed_encode_context M ?c)) = 0
      \<and> ir_count (specific (uncompressed_encode_context M ?c)) = 1"
    using fo(1,2) due
    by (auto simp: encode_context_simps decide_state_simps)
  then show ?thesis by simp
qed

text \<open>
  The IR period. In the IR state with \<open>ir_count\<close> at \<open>k\<close> and no refresh due, the next
  \<open>n\<close> packets are built in the IR state as long as \<open>k + n\<close> is at most \<open>MAX_IR_COUNT\<close>;
  the packet after \<open>ir_count\<close> has reached \<open>MAX_IR_COUNT\<close> is built in the FO state.
\<close>

lemma ir_period_IR:
  assumes "state c = IR"
    and "mode c = U_MODE \<longrightarrow>
           go_back_ir_count (specific c) < periodic_refreshes_ir_timeout (compressor c)"
    and "ir_count (specific c) + int n \<le> M"
  shows "state ((uncompressed_encode_context M ^^ n) c) = IR
       \<and> mode ((uncompressed_encode_context M ^^ n) c) = mode c
       \<and> compressor ((uncompressed_encode_context M ^^ n) c) = compressor c
       \<and> go_back_ir_count (specific ((uncompressed_encode_context M ^^ n) c))
           = go_back_ir_count (specific c)
       \<and> ir_count (specific ((uncompressed_encode_context M ^^ n) c))
           = ir_count (specific c) + int n"
  using assms
proof (induction n)
  case 0
  then show ?case by simp
next
  case (Suc n)
  let ?c = "(uncompressed_encode_context M ^^ n) c"
  have ih: "state ?c = IR" "mode ?c = mode c" "compressor ?c = compressor c"
    "go_back_ir_count (specific ?c) = go_back_ir_count (specific c)"
    "ir_count (specific ?c) = ir_count (specific c) + int n"
    using Suc by simp_all
  have lt: "ir_count (specific ?c) < M" using ih(5) Suc.prems(3) by simp
  have nodue: "mode ?c = U_MODE \<longrightarrow>
           go_back_ir_count (specific ?c) < periodic_refreshes_ir_timeout (compressor ?c)"
    using ih Suc.prems(2) by simp
  have step: "state (uncompressed_encode_context M ?c) = IR
            \<and> mode (uncompressed_encode_context M ?c) = mode ?c
            \<and> compressor (uncompressed_encode_context M ?c) = compressor ?c
            \<and> go_back_ir_count (specific (uncompressed_encode_context M ?c))
                = go_back_ir_count (specific ?c)
            \<and> ir_count (specific (uncompressed_encode_context M ?c))
                = ir_count (specific ?c) + 1"
    using ih(1) lt nodue
    by (auto simp: encode_context_simps decide_state_simps)
  then show ?case using ih by simp
qed

lemma ir_period_FO:
  assumes "state c = IR"
    and "mode c = U_MODE \<longrightarrow>
           go_back_ir_count (specific c) < periodic_refreshes_ir_timeout (compressor c)"
    and "ir_count (specific c) + int n = M"
  shows "state ((uncompressed_encode_context M ^^ Suc n) c) = FO
       \<and> normal_count (specific ((uncompressed_encode_context M ^^ Suc n) c)) = 1"
proof -
  let ?c = "(uncompressed_encode_context M ^^ n) c"
  have ir: "state ?c = IR" "mode ?c = mode c" "compressor ?c = compressor c"
    "go_back_ir_count (specific ?c) = go_back_ir_count (specific c)"
    "ir_count (specific ?c) = ir_count (specific c) + int n"
    using ir_period_IR [where c = c and n = n and M = M] assms by simp_all
  have ge: "ir_count (specific ?c) \<ge> M" using ir(5) assms(3) by simp
  have nodue: "mode ?c = U_MODE \<longrightarrow>
           go_back_ir_count (specific ?c) < periodic_refreshes_ir_timeout (compressor ?c)"
    using ir assms(2) by simp
  have "state (uncompressed_encode_context M ?c) = FO
      \<and> normal_count (specific (uncompressed_encode_context M ?c)) = 1"
    using ir(1) ge nodue
    by (auto simp: encode_context_simps decide_state_simps)
  then show ?thesis by simp
qed

subsection \<open>Feedback\<close>

text \<open>
  Claim C5. For a FEEDBACK-2 whose mode field \<open>m\<close> is not 0 and differs from the current
  mode, the context takes the mode \<open>m\<close> exactly when the option loop found a CRC option
  (\<open>is_crc_used\<close>) whose value (\<open>crc_in_packet\<close>) equals the CRC-8 over the \<open>size\<close> bytes of
  the feedback in which the loop has zeroed that value; otherwise the mode stays. When
  the CRC option mismatches, the context is not changed at all. The last conjunct says
  what the loop's results are: the value is a byte of the received feedback behind the
  options' start, and the buffer is the received one with that byte (and at most other
  bytes) zeroed.
\<close>

theorem C5_feedback_mode_change:
  assumes "type fb = 2"
    and "c_uncompressed_feedback c fb = Some (c', d')"
    and "feedback_options (data fb) (specific_offset fb + 2) (specific_size fb - 2) 0 False
           = Some (d, crc_in_packet, is_crc_used)"
    and "uint (drop_bit 4 (data fb ! specific_offset fb) AND 3) = m"
    and "m \<noteq> 0"
    and "m \<noteq> mode c"
  shows "(mode c' = m \<longleftrightarrow>
            is_crc_used \<and> crc_in_packet = crc_8 (compressor c) (take (size_fb fb) d))
       \<and> (mode c' = m \<or> mode c' = mode c)
       \<and> (is_crc_used \<and> crc_in_packet \<noteq> crc_8 (compressor c) (take (size_fb fb) d)
            \<longrightarrow> c' = c)
       \<and> (is_crc_used \<longrightarrow>
            (\<exists>i. specific_offset fb + 2 < i \<and> i < length (data fb)
                 \<and> data fb ! i = crc_in_packet \<and> d ! i = 0)
          \<and> (\<forall>j < length (data fb). d ! j = data fb ! j \<or> d ! j = 0)
          \<and> length d = length (data fb))"
proof -
  let ?ok = "crc_in_packet = crc_8 (compressor c) (take (size_fb fb) d)"
  have mnz: "drop_bit 4 (data fb ! specific_offset fb) AND 3 \<noteq> 0"
    using assms(4,5) by auto
  have bad: "c' = c" if "is_crc_used \<and> \<not> ?ok"
    using feedback2_unfold(2) [OF assms(1,2,3)] that by simp
  have good: "mode c' = m" if "is_crc_used \<and> ?ok"
  proof -
    have "c' = (let c1 = uncompressed_change_mode c m
                in if acktype fb = STATIC_NACK then uncompressed_change_state c1 IR else c1)"
      using feedback2_unfold(3) [OF assms(1,2,3)] that mnz assms(4) by (simp add: Let_def)
    then show ?thesis by (simp add: Let_def change_state_simps change_mode_simps)
  qed
  have none: "mode c' = mode c" if "\<not> is_crc_used"
  proof -
    have "c' = (if acktype fb = STATIC_NACK then uncompressed_change_state c IR else c)"
      using feedback2_unfold(3) [OF assms(1,2,3)] that by (simp add: Let_def)
    then show ?thesis by (simp add: change_state_simps)
  qed
  have loop: "is_crc_used \<longrightarrow>
            (\<exists>i. specific_offset fb + 2 < i \<and> i < length (data fb)
                 \<and> data fb ! i = crc_in_packet \<and> d ! i = 0)
          \<and> (\<forall>j < length (data fb). d ! j = data fb ! j \<or> d ! j = 0)
          \<and> length d = length (data fb)"
    using feedback_options_inv [OF assms(3)] by simp
  show ?thesis
    using bad good none loop assms(6) by metis
qed

text \<open>
  A context in U-mode (mode 1) and FO state receives a FEEDBACK-2 that asks for O-mode
  (mode 2): with the CRC option 0x39, which is the CRC-8 of the feedback, the mode
  changes; with 0x3A it does not, and nothing else does.
\<close>

theorem C5_feedback_mode_change_witness:
  "map_option (\<lambda>r. mode (fst r))
      (c_uncompressed_feedback (fo_ctxt SMALL_CID 0 7) (feedback2_crc ACK 0x20 0x39)) = Some 2
   \<and> c_uncompressed_feedback (fo_ctxt SMALL_CID 0 7) (feedback2_crc ACK 0x20 0x3A)
       = Some (fo_ctxt SMALL_CID 0 7, [0x20, 0x01, 0x11, 0])"
proof -
  let ?c = "fo_ctxt SMALL_CID 0 7"
  have opts: "feedback_options (data (feedback2_crc ACK 0x20 v))
                (specific_offset (feedback2_crc ACK 0x20 v) + 2)
                (specific_size (feedback2_crc ACK 0x20 v) - 2) 0 False
              = Some ([0x20, 0x01, 0x11, 0], v, True)" for v
    by (simp add: feedback2_crc_def feedback_options.simps)
  have crc: "crc_8 (compressor ?c) (take (size_fb (feedback2_crc ACK 0x20 v)) [0x20, 0x01, 0x11, 0])
               = 0x39" for v
    by (simp add: fo_ctxt_def sample_comp_def feedback2_crc_def crc_calculate_8_def
          crc8_byte_def crc8_shift_def)
  have t: "type (feedback2_crc ACK 0x20 v) = 2" for v
    by (simp add: feedback2_crc_def)
  have m: "uint (drop_bit 4 (data (feedback2_crc ACK 0x20 v)
                               ! specific_offset (feedback2_crc ACK 0x20 v)) AND 3) = 2" for v
    by (simp add: feedback2_crc_def)
  have r1: "c_uncompressed_feedback ?c (feedback2_crc ACK 0x20 0x39)
              = Some (uncompressed_change_mode ?c 2, [0x20, 0x01, 0x11, 0])"
    using opts [of "0x39"] crc [of "0x39"]
    by (simp add: c_uncompressed_feedback_def feedback2_crc_def)
  have r2: "c_uncompressed_feedback ?c (feedback2_crc ACK 0x20 0x3A)
              = Some (?c, [0x20, 0x01, 0x11, 0])"
    using opts [of "0x3A"] crc [of "0x3A"]
    by (simp add: c_uncompressed_feedback_def feedback2_crc_def)
  have n0: "(2::int) \<noteq> 0" by simp
  have n1: "2 \<noteq> mode ?c" by (simp add: fo_ctxt_def U_MODE_def)
  show ?thesis
    using C5_feedback_mode_change [OF t r1 opts m n0 n1]
          C5_feedback_mode_change [OF t r2 opts m n0 n1] crc r1 r2
    by simp
qed

text \<open>
  Claim C6, as stated: an accepted FEEDBACK-2 with ack-type NACK sets the state to FO.
  It does not: a context in the IR state that receives a NACK (header byte 0x40) with a
  valid CRC option (0x17) is left as it was, in the IR state.
\<close>

theorem C6_nack_counterexample:
  "c_uncompressed_feedback (ir_ctxt SMALL_CID 0 1) (feedback2_crc NACK 0x40 0x17)
     = Some (ir_ctxt SMALL_CID 0 1, [0x40, 0x01, 0x11, 0])
   \<and> state (ir_ctxt SMALL_CID 0 1) \<noteq> FO
   \<and> crc_calculate_8 [0x40, 0x01, 0x11, 0] = 0x17"
  by (simp add: c_uncompressed_feedback_def feedback2_crc_def feedback_options.simps
        ir_ctxt_def sample_comp_def crc_calculate_8_def crc8_byte_def crc8_shift_def)

text \<open>
  Claim C6, amended: the ack-type NACK has no effect on the context. A FEEDBACK-2 with
  ack-type NACK leaves what the same feedback with ack-type ACK leaves: the context is
  not changed at all unless the feedback carries a mode change, which sets the state to
  IR; the feedback never sets the state to FO.
\<close>

theorem C6_nack_no_effect:
  assumes "type fb = 2"
    and "acktype fb = NACK"
    and "c_uncompressed_feedback c fb = Some (c', d')"
  shows "c_uncompressed_feedback c (fb\<lparr>acktype := ACK\<rparr>) = Some (c', d')
       \<and> (c' = c \<or> (mode c' \<noteq> mode c \<and> state c' = IR))"
proof -
  have same: "c_uncompressed_feedback c (fb\<lparr>acktype := ACK\<rparr>) = c_uncompressed_feedback c fb"
    using assms(2)
    by (simp add: c_uncompressed_feedback_def Let_def split: option.splits if_splits)
  obtain d ci u where opts:
    "feedback_options (data fb) (specific_offset fb + 2) (specific_size fb - 2) 0 False
       = Some (d, ci, u)"
    using feedback2_options_defined [OF assms(1,3)] by blast
  have "c' = c \<or> (mode c' \<noteq> mode c \<and> state c' = IR)"
  proof (cases "u \<and> ci \<noteq> crc_8 (compressor c) (take (size_fb fb) d)")
    case True
    then show ?thesis using feedback2_unfold(2) [OF assms(1,3) opts] by simp
  next
    case False
    then have "c' = c \<or> (\<exists>m. m \<noteq> mode c \<and> c' = uncompressed_change_mode c m)"
      using feedback2_unfold(3) [OF assms(1,3) opts] assms(2)
      by (auto simp: Let_def uncompressed_change_mode_def split: if_splits)
    then show ?thesis by (auto simp: change_mode_simps)
  qed
  then show ?thesis using same assms(3) by simp
qed

theorem C6_nack_no_effect_witness:
  "c_uncompressed_feedback (fo_ctxt SMALL_CID 0 7) (feedback2 NACK 0x40)
     = Some (fo_ctxt SMALL_CID 0 7, [0x40, 0x01])
   \<and> c_uncompressed_feedback (fo_ctxt SMALL_CID 0 7) ((feedback2 NACK 0x40)\<lparr>acktype := ACK\<rparr>)
     = Some (fo_ctxt SMALL_CID 0 7, [0x40, 0x01])"
proof -
  have t: "type (feedback2 NACK 0x40) = 2" by (simp add: feedback2_def)
  have a: "acktype (feedback2 NACK 0x40) = NACK" by (simp add: feedback2_def)
  have r: "c_uncompressed_feedback (fo_ctxt SMALL_CID 0 7) (feedback2 NACK 0x40)
             = Some (fo_ctxt SMALL_CID 0 7, [0x40, 0x01])"
    by (simp add: c_uncompressed_feedback_def feedback2_def feedback_options.simps)
  show ?thesis using C6_nack_no_effect [OF t a r] r by simp
qed

text \<open>
  Claim C7, as stated: an accepted FEEDBACK-2 with ack-type STATIC-NACK sets the state to
  IR, so the next packet is an IR packet. The state is IR, but the next packet need not
  be an IR packet: \<^verbatim>\<open>uncompressed_change_state\<close> resets the counters only when the state
  changes. A context still in the IR state that has sent \<open>MAX_IR_COUNT\<close> (here 3) IR
  packets is left as it was by a STATIC-NACK (header byte 0x80) with a valid CRC option
  (0x4B), and the next encode call moves it to FO and builds a Normal packet.
\<close>

theorem C7_static_nack_counterexample:
  "c_uncompressed_feedback (ir_ctxt SMALL_CID 0 3) (feedback2_crc STATIC_NACK 0x80 0x4B)
     = Some (ir_ctxt SMALL_CID 0 3, [0x80, 0x01, 0x11, 0])
   \<and> crc_calculate_8 [0x80, 0x01, 0x11, 0] = 0x4B
   \<and> state (uncompressed_decide_state 3 (ir_ctxt SMALL_CID 0 3)) = FO
   \<and> map_option packet_type_out
         (c_uncompressed_encode 3 code_cid_values (ir_ctxt SMALL_CID 0 3)
            [0x45, 0, 0, 0x14] 4 [0, 0, 0, 0] 4)
       = Some PACKET_NORMAL"
  by (simp add: c_uncompressed_feedback_def feedback2_crc_def feedback_options.simps ir_ctxt_def
        uncompressed_change_state_def c_uncompressed_encode_def uncompressed_decide_state_def
        uncompressed_periodic_down_transition_def uncompressed_code_packet_def
        uncompressed_code_normal_packet_def code_cid_values_def sample_comp_def U_MODE_def
        crc_calculate_8_def crc8_byte_def crc8_shift_def)

text \<open>
  Claim C7, amended: an accepted FEEDBACK-2 with ack-type STATIC-NACK sets the state to
  IR, and resets \<open>ir_count\<close> to 0 when the state was not IR before (it keeps \<open>ir_count\<close>
  when the state already was IR). The next packet is an IR packet whenever \<open>ir_count\<close>
  is then below \<open>MAX_IR_COUNT\<close>: that is, when the feedback arrived in the FO state (and
  \<open>MAX_IR_COUNT\<close> is positive), or in the IR state before \<open>MAX_IR_COUNT\<close> IR packets had
  been sent.
\<close>

theorem C7_static_nack_state:
  assumes "type fb = 2"
    and "acktype fb = STATIC_NACK"
    and "c_uncompressed_feedback c fb = Some (c', d')"
    and "feedback_options (data fb) (specific_offset fb + 2) (specific_size fb - 2) 0 False
           = Some (d, crc_in_packet, is_crc_used)"
    and "\<not> (is_crc_used \<and> crc_in_packet \<noteq> crc_8 (compressor c) (take (size_fb fb) d))"
  shows "state c' = IR
       \<and> ir_count (specific c') = (if state c = IR then ir_count (specific c) else 0)
       \<and> (ir_count (specific c') < MAX_IR_COUNT \<longrightarrow>
            state (uncompressed_decide_state MAX_IR_COUNT c') = IR
          \<and> (\<forall>r. c_uncompressed_encode MAX_IR_COUNT code_cid_values_fn c' ip packet_size dst
                      dest_size = Some r \<longrightarrow>
                 packet_type_out r = PACKET_IR))"
proof -
  let ?m = "drop_bit 4 (data fb ! specific_offset fb) AND 3"
  let ?c1 = "if ?m \<noteq> 0 \<and> is_crc_used then uncompressed_change_mode c (uint ?m) else c"
  have c': "c' = uncompressed_change_state ?c1 IR"
    using feedback2_unfold(3) [OF assms(1,3,4,5)] assms(2) by (simp add: Let_def)
  have st: "state c' = IR"
    using c' by (simp add: change_state_simps)
  have ir: "ir_count (specific c') = (if state c = IR then ir_count (specific c) else 0)"
    using c' by (simp add: change_state_simps change_mode_simps)
  have next_ir: "state (uncompressed_decide_state MAX_IR_COUNT c') = IR"
    if "ir_count (specific c') < MAX_IR_COUNT"
    using that st
    by (simp add: uncompressed_decide_state_def uncompressed_periodic_down_transition_def
          uncompressed_change_state_def Let_def)
  have pkt: "packet_type_out r = PACKET_IR"
    if "ir_count (specific c') < MAX_IR_COUNT"
      and "c_uncompressed_encode MAX_IR_COUNT code_cid_values_fn c' ip packet_size dst dest_size
             = Some r" for r
    using next_ir [OF that(1)] that(2)
    by (auto simp: c_uncompressed_encode_def uncompressed_code_packet_def Let_def
             split: option.splits)
  show ?thesis using st ir next_ir pkt by blast
qed

text \<open>
  A context in the FO state receives a STATIC-NACK: it is in the IR state afterwards,
  with \<open>ir_count\<close> 0, and the next packet is an IR packet.
\<close>

theorem C7_static_nack_state_witness:
  "map_option (\<lambda>r. state (fst r))
      (c_uncompressed_feedback (fo_ctxt SMALL_CID 0 7) (feedback2 STATIC_NACK 0x80)) = Some IR
   \<and> map_option packet_type_out
        (c_uncompressed_encode 3 code_cid_values
           (uncompressed_change_state (fo_ctxt SMALL_CID 0 7) IR)
           [0x45, 0, 0, 0x14] 4 [0, 0, 0, 0] 4) = Some PACKET_IR"
proof -
  let ?c = "fo_ctxt SMALL_CID 0 7"
  let ?fb = "feedback2 STATIC_NACK 0x80"
  have t: "type ?fb = 2" by (simp add: feedback2_def)
  have a: "acktype ?fb = STATIC_NACK" by (simp add: feedback2_def)
  have opts: "feedback_options (data ?fb) (specific_offset ?fb + 2) (specific_size ?fb - 2)
                0 False = Some ([0x80, 0x01], 0, False)"
    by (simp add: feedback2_def feedback_options.simps)
  have r: "c_uncompressed_feedback ?c ?fb
             = Some (uncompressed_change_state ?c IR, [0x80, 0x01])"
    by (simp add: c_uncompressed_feedback_def feedback2_def feedback_options.simps)
  have acc: "\<not> (False \<and> (0 :: 8 word) \<noteq> crc_8 (compressor ?c) (take (size_fb ?fb) [0x80, 0x01]))"
    by simp
  have lt: "ir_count (specific (uncompressed_change_state ?c IR)) < 3"
    by (simp add: uncompressed_change_state_def fo_ctxt_def)
  obtain r' where enc:
    "c_uncompressed_encode 3 code_cid_values (uncompressed_change_state ?c IR)
       [0x45, 0, 0, 0x14] 4 [0, 0, 0, 0] 4 = Some r'"
    by (simp add: fo_ctxt_def
          uncompressed_change_state_def c_uncompressed_encode_def uncompressed_decide_state_def
          uncompressed_periodic_down_transition_def uncompressed_code_packet_def
          uncompressed_code_IR_packet_def code_cid_values_def sample_comp_def U_MODE_def)
  show ?thesis
    using C7_static_nack_state [OF t a r opts acc, of 3 code_cid_values
            "[0x45, 0, 0, 0x14]" 4 "[0, 0, 0, 0]" 4] lt enc r
    by simp
qed

text \<open>
  Claim C9. The feedback handler writes into the feedback buffer it is given. For a
  FEEDBACK-2 in which the option loop found a CRC option, the buffer the handler leaves,
  whether the feedback is then accepted or discarded, is the one the loop left: of the
  same length, every byte as received or zero, and zero at the position of the CRC
  option's value, whose received value is in \<open>crc_in_packet\<close>. So the buffer differs from
  the received feedback whenever that value was not zero.
\<close>

theorem C9_feedback_buffer_written:
  assumes "type fb = 2"
    and "c_uncompressed_feedback c fb = Some (c', d')"
    and "feedback_options (data fb) (specific_offset fb + 2) (specific_size fb - 2) 0 False
           = Some (d, crc_in_packet, True)"
  shows "d' = d
       \<and> length d' = length (data fb)
       \<and> (\<forall>j < length (data fb). d' ! j = data fb ! j \<or> d' ! j = 0)
       \<and> (\<exists>i. specific_offset fb + 2 < i \<and> i < length (data fb)
               \<and> data fb ! i = crc_in_packet \<and> d' ! i = 0)
       \<and> (crc_in_packet \<noteq> 0 \<longrightarrow> d' \<noteq> data fb)"
proof -
  have eq: "d' = d" using feedback2_unfold(1) [OF assms] .
  have inv: "length d = length (data fb)
       \<and> (\<forall>j < length (data fb). d ! j = data fb ! j \<or> d ! j = 0)
       \<and> (\<exists>i. specific_offset fb + 2 < i \<and> i < length (data fb)
               \<and> data fb ! i = crc_in_packet \<and> d ! i = 0)"
    using feedback_options_inv [OF assms(3)] by simp
  then have "crc_in_packet \<noteq> 0 \<longrightarrow> d \<noteq> data fb" by metis
  then show ?thesis using eq inv by simp
qed

text \<open>
  A feedback with a valid CRC option (0x39) and one with a wrong CRC option (0x3A): in
  both, the handler leaves the value byte zeroed.
\<close>

theorem C9_feedback_buffer_written_witness:
  "map_option snd
      (c_uncompressed_feedback (fo_ctxt SMALL_CID 0 7) (feedback2_crc ACK 0x20 0x39))
     = Some [0x20, 0x01, 0x11, 0]
   \<and> map_option snd
      (c_uncompressed_feedback (fo_ctxt SMALL_CID 0 7) (feedback2_crc ACK 0x20 0x3A))
     = Some [0x20, 0x01, 0x11, 0]
   \<and> data (feedback2_crc ACK 0x20 0x39) = [0x20, 0x01, 0x11, 0x39]"
proof -
  let ?c = "fo_ctxt SMALL_CID 0 7"
  have opts: "feedback_options (data (feedback2_crc ACK 0x20 v))
                (specific_offset (feedback2_crc ACK 0x20 v) + 2)
                (specific_size (feedback2_crc ACK 0x20 v) - 2) 0 False
              = Some ([0x20, 0x01, 0x11, 0], v, True)" for v
    by (simp add: feedback2_crc_def feedback_options.simps)
  have crc: "crc_8 (compressor ?c) (take (size_fb (feedback2_crc ACK 0x20 v)) [0x20, 0x01, 0x11, 0])
               = 0x39" for v
    by (simp add: fo_ctxt_def sample_comp_def feedback2_crc_def crc_calculate_8_def
          crc8_byte_def crc8_shift_def)
  have t: "type (feedback2_crc ACK 0x20 v) = 2" for v
    by (simp add: feedback2_crc_def)
  obtain c1 d1 where r1:
    "c_uncompressed_feedback ?c (feedback2_crc ACK 0x20 0x39) = Some (c1, d1)"
    using opts [of "0x39"] crc [of "0x39"]
    by (simp add: c_uncompressed_feedback_def feedback2_crc_def)
  obtain c2 d2 where r2:
    "c_uncompressed_feedback ?c (feedback2_crc ACK 0x20 0x3A) = Some (c2, d2)"
    using opts [of "0x3A"] crc [of "0x3A"]
    by (simp add: c_uncompressed_feedback_def feedback2_crc_def)
  show ?thesis
    using C9_feedback_buffer_written [OF t r1 opts] C9_feedback_buffer_written [OF t r2 opts]
          r1 r2
    by (simp add: feedback2_crc_def)
qed

subsection \<open>The IR packet\<close>

text \<open>
  Claim C8, as stated: the bytes of an IR packet are the CID bytes, then 0xFC, then the
  profile byte 0x00, then the CRC-8. With large CIDs they are not in that order: 0xFC is
  the first byte and the CID info follows it. For the CID 5, whose CID info is the byte
  0x05, the packet is FC 05 00 47 and not 05 FC 00 followed by a CRC.
\<close>

theorem C8_ir_packet_counterexample:
  "uncompressed_code_IR_packet code_cid_values (ir_ctxt LARGE_CID 5 1) [0x45, 0, 0, 0x14]
       [0, 0, 0, 0, 0, 0] 6
     = Some (4, [0xFC, 0x05, 0x00, 0x47, 0, 0], 0)
   \<and> cid_info 5 = [0x05]
   \<and> [0xFC, 0x05, 0x00, 0x47]
       \<noteq> cid_info 5 @ [0xFC, 0x00, crc_calculate_8 (cid_info 5 @ [0xFC, 0x00, 0x00])]"
  by (simp add: uncompressed_code_IR_packet_def code_cid_values_def cid_info_def ir_ctxt_def
        sample_comp_def ROHC_PROFILE_UNCOMPRESSED_def crc_calculate_8_def crc8_byte_def
        crc8_shift_def)

text \<open>
  Claim C8, amended: in an IR packet, the discriminator byte 0xFC is at the position
  \<open>first_position\<close> that \<^verbatim>\<open>code_cid_values\<close> returns, the profile byte 0x00 at the position
  \<open>counter\<close> it returns, and the byte after it is the CRC-8 computed over these
  \<open>counter + 2\<close> bytes with the CRC byte itself zeroed; every other byte is as
  \<^verbatim>\<open>code_cid_values\<close> left it (the Add-CID octet before 0xFC with small CIDs, the CID info
  between 0xFC and the profile byte with large CIDs). The returned length is
  \<open>counter + 2\<close> and the returned \<open>payload_offset\<close> is 0. This holds for any
  \<^verbatim>\<open>code_cid_values\<close> that puts the first byte before \<open>counter\<close> and leaves two bytes of
  room in the buffer.
\<close>

theorem C8_ir_packet_bytes:
  assumes "code_cid_values_fn (cid_type (compressor c)) (cid c) dst dest_size
             = Some (counter, first_position, d1)"
    and "first_position < counter"
    and "counter + 1 < length d1"
  shows "\<exists>d5. uncompressed_code_IR_packet code_cid_values_fn c ip dst dest_size
                = Some (int counter + 2, d5, 0)
            \<and> length d5 = length d1
            \<and> d5 ! first_position = 0xFC
            \<and> d5 ! counter = 0x00
            \<and> d5 ! (counter + 1) = crc_8 (compressor c) (take (counter + 2) (d5[counter + 1 := 0]))
            \<and> (\<forall>i < length d1. i \<noteq> first_position \<and> i \<noteq> counter \<and> i \<noteq> counter + 1
                   \<longrightarrow> d5 ! i = d1 ! i)"
proof -
  let ?d4 = "d1[first_position := 0xfc, counter := 0, counter + 1 := 0]"
  let ?d5 = "?d4[counter + 1 := crc_8 (compressor c) (take (counter + 2) ?d4)]"
  have res: "uncompressed_code_IR_packet code_cid_values_fn c ip dst dest_size
               = Some (int counter + 2, ?d5, 0)"
    using assms
    by (simp add: uncompressed_code_IR_packet_def ROHC_PROFILE_UNCOMPRESSED_def Let_def)
  have zeroed: "?d5[counter + 1 := 0] = ?d4"
    by (simp add: list_update_swap)
  have crc: "?d5 ! (counter + 1) = crc_8 (compressor c) (take (counter + 2) (?d5[counter + 1 := 0]))"
    using assms(3) by (simp only: zeroed) simp
  have fc: "?d5 ! first_position = 0xFC"
    using assms(2,3) by simp
  have prof: "?d5 ! counter = 0x00"
    using assms(2,3) by simp
  have others: "\<forall>i < length d1. i \<noteq> first_position \<and> i \<noteq> counter \<and> i \<noteq> counter + 1
                   \<longrightarrow> ?d5 ! i = d1 ! i"
    by simp
  have len: "length ?d5 = length d1" by simp
  show ?thesis
    using res len fc prof crc others by blast
qed

text \<open>
  With small CIDs and the CID 5 the IR packet is E5 FC 00 57: the Add-CID octet, the
  discriminator, the profile byte and the CRC-8 of E5 FC 00 00.
\<close>

theorem C8_ir_packet_bytes_witness:
  "uncompressed_code_IR_packet code_cid_values (ir_ctxt SMALL_CID 5 1) [0x45, 0, 0, 0x14]
       [0, 0, 0, 0, 0, 0] 6
     = Some (4, [0xE5, 0xFC, 0x00, 0x57, 0, 0], 0)
   \<and> crc_calculate_8 [0xE5, 0xFC, 0x00, 0x00] = 0x57"
proof -
  let ?c = "ir_ctxt SMALL_CID 5 1"
  have ccv: "code_cid_values (cid_type (compressor ?c)) (cid ?c) [0, 0, 0, 0, 0, 0] 6
               = Some (2, 1, [0xE5, 0, 0, 0, 0, 0])"
    by (simp add: code_cid_values_def ir_ctxt_def sample_comp_def)
  have lt: "(1::nat) < 2" by simp
  have room: "(2::nat) + 1 < length [0xE5 :: 8 word, 0, 0, 0, 0, 0]" by simp
  have crc: "crc_calculate_8 [0xE5, 0xFC, 0x00, 0x00] = 0x57"
    by (simp add: crc_calculate_8_def crc8_byte_def crc8_shift_def)
  have direct: "uncompressed_code_IR_packet code_cid_values ?c [0x45, 0, 0, 0x14]
                  [0, 0, 0, 0, 0, 0] 6 = Some (4, [0xE5, 0xFC, 0x00, 0x57, 0, 0], 0)"
    using crc
    by (simp add: uncompressed_code_IR_packet_def code_cid_values_def ir_ctxt_def
          sample_comp_def ROHC_PROFILE_UNCOMPRESSED_def)
  show ?thesis
    using C8_ir_packet_bytes [where code_cid_values_fn = code_cid_values, OF ccv lt room,
            of "[0x45, 0, 0, 0x14]"] direct crc
    by simp
qed

end
